theory Spec2Isabelle
  imports Complex_Main "HOL-Library.Word"
begin

section \<open>The tile endpoint of server.js\<close>

text \<open>
  A shallow embedding of the handler of \<^verbatim>\<open>GET /api/tiles/:z/:x/:y\<close> in
  \<^verbatim>\<open>src/server.js\<close> (lines 116 to 439).

  Numbers. A JavaScript number is modelled by a real when it may be fractional and by an
  integer once it has gone through \<^verbatim>\<open>Math.round\<close> or \<^verbatim>\<open>parseInt\<close>, or
  is a raster size. The subtraction and the division whose result \<^verbatim>\<open>Math.round\<close>
  turns into a pixel (lines 206 and 207) are rounded to the nearest double, as the code
  computes them; the other operations are modelled without rounding error.
  \<^verbatim>\<open>NaN\<close> and the infinities are outside the model (a geotransform with a zero
  pixel size, a request parameter that \<^verbatim>\<open>parseInt\<close> does not read).

  Collaborators. \<^verbatim>\<open>proj4\<close>, the band reader of \<^verbatim>\<open>gdal-async\<close> and the
  \<^verbatim>\<open>sharp\<close> pipeline are parameters of the model (the record \<open>env\<close> below); each
  of them returns \<open>None\<close> where the library call throws.
\<close>

subsection \<open>Coordinate transforms (lines 171 to 177 and 205 to 209)\<close>

record latLon =
  lon :: real
  lat :: real

text \<open>\<^verbatim>\<open>Math.pow(2, z)\<close> for an integer \<open>z\<close>.\<close>

definition Math_pow2 :: "int \<Rightarrow> real" where
  "Math_pow2 z = 2 powr (real_of_int z)"

text \<open>\<^verbatim>\<open>Math.round\<close>: the nearest integer, a tie going up.\<close>

definition Math_round :: "real \<Rightarrow> int" where
  "Math_round v = \<lfloor>v + 1 / 2\<rfloor>"

text \<open>
  The double nearest to a real number (binary64, ties to even): \<open>binade v\<close> is the
  exponent of \<open>v\<close>, the doubles around \<open>v\<close> are the multiples of \<open>ulp\<close>, and a
  subnormal has the exponent \<open>- 1022\<close>. A result past the largest double is outside the
  model.
\<close>

definition roundHalfEven :: "real \<Rightarrow> int" where
  "roundHalfEven v =
     (let f = \<lfloor>v\<rfloor>; r = v - real_of_int f
      in if r < 1 / 2 then f else if r > 1 / 2 then f + 1
         else if even f then f else f + 1)"

definition binade :: "real \<Rightarrow> int" where
  "binade v = \<lfloor>log 2 \<bar>v\<bar>\<rfloor>"

definition toDouble :: "real \<Rightarrow> real" where
  "toDouble v =
     (if v = 0 then 0
      else let ulp = 2 powr real_of_int (max (binade v) (- 1022) - 52)
           in ulp * real_of_int (roundHalfEven (v / ulp)))"

definition tileToLatLon :: "int \<Rightarrow> int \<Rightarrow> int \<Rightarrow> latLon" where
  "tileToLatLon x y z =
     (let n = pi - 2 * pi * real_of_int y / Math_pow2 z
      in \<lparr> lon = real_of_int x / Math_pow2 z * 360 - 180,
           lat = 180 / pi * arctan (0.5 * (exp n - exp (- n))) \<rparr>)"

text \<open>
  The raster as the handler reads it: \<^verbatim>\<open>info.width\<close>, \<^verbatim>\<open>info.height\<close> and the
  coefficients of \<^verbatim>\<open>dataset.geoTransform\<close> (line 202); the two skew coefficients
  are destructured and never used.
\<close>

record rasterInfo =
  width :: int
  height :: int
  originX :: real
  pixelWidth :: real
  skewX :: real
  originY :: real
  skewY :: real
  pixelHeight :: real

type_synonym pixel = "int \<times> int"

text \<open>
  Lines 205 to 209. The projected point and the coefficients are doubles;
  \<^verbatim>\<open>projX - originX\<close> and the quotient are each rounded to the nearest double
  before \<^verbatim>\<open>Math.round\<close>.
\<close>

definition projToPixel :: "rasterInfo \<Rightarrow> real \<times> real \<Rightarrow> pixel" where
  "projToPixel info p =
     (let pixelX = Math_round (toDouble (toDouble (fst p - originX info) / pixelWidth info));
          pixelY = Math_round (toDouble (toDouble (snd p - originY info) / pixelHeight info))
      in (pixelX, pixelY))"

subsection \<open>Read windows (lines 223 to 232, 245 to 295 and 353 to 364)\<close>

record pixelWindow =
  winX :: int
  winY :: int
  winWidth :: int
  winHeight :: int

text \<open>\<^verbatim>\<open>Math.min\<close> and \<^verbatim>\<open>Math.max\<close> of four numbers.\<close>

definition Math_min4 :: "int \<Rightarrow> int \<Rightarrow> int \<Rightarrow> int \<Rightarrow> int" where
  "Math_min4 a b c d = min (min (min a b) c) d"

definition Math_max4 :: "int \<Rightarrow> int \<Rightarrow> int \<Rightarrow> int \<Rightarrow> int" where
  "Math_max4 a b c d = max (max (max a b) c) d"

text \<open>Lines 223 to 232: \<open>readX\<close>, \<open>readY\<close>, \<open>readWidth\<close>, \<open>readHeight\<close>.\<close>

definition boundingWindow :: "pixel \<Rightarrow> pixel \<Rightarrow> pixel \<Rightarrow> pixel \<Rightarrow> pixelWindow" where
  "boundingWindow nwPixel nePixel swPixel sePixel =
     (let minX = Math_min4 (fst nwPixel) (fst nePixel) (fst swPixel) (fst sePixel);
          maxX = Math_max4 (fst nwPixel) (fst nePixel) (fst swPixel) (fst sePixel);
          minY = Math_min4 (snd nwPixel) (snd nePixel) (snd swPixel) (snd sePixel);
          maxY = Math_max4 (snd nwPixel) (snd nePixel) (snd swPixel) (snd sePixel)
      in \<lparr> winX = minX, winY = minY, winWidth = maxX - minX, winHeight = maxY - minY \<rparr>)"

text \<open>Lines 245 and 246: the test that sends the empty tile.\<close>

definition outOfBounds :: "rasterInfo \<Rightarrow> pixelWindow \<Rightarrow> bool" where
  "outOfBounds info w =
     (winX w < 0 \<or> winY w < 0 \<or> winX w \<ge> width info \<or> winY w \<ge> height info \<or>
      winWidth w \<le> 0 \<or> winHeight w \<le> 0)"

text \<open>Line 254: the window is larger than half of the raster in one direction.\<close>

definition oversize :: "rasterInfo \<Rightarrow> pixelWindow \<Rightarrow> bool" where
  "oversize info w =
     (real_of_int (winWidth w) > real_of_int (width info) * 0.5 \<or>
      real_of_int (winHeight w) > real_of_int (height info) * 0.5)"

text \<open>
  Lines 272 to 295: the fixed area around the centre pixel. \<open>None\<close> is the
  \<^verbatim>\<open>return sendEmptyTile()\<close> of line 288. The test of line 287 reads the
  fractional numbers; the rounding of lines 292 to 295 comes after it.
\<close>

definition fixedWindow :: "rasterInfo \<Rightarrow> pixel \<Rightarrow> pixelWindow option" where
  "fixedWindow info centerPixel =
     (let fixedSize = real_of_int (min (width info) (height info)) / 10;
          fixedReadX = max 0 (real_of_int (fst centerPixel) - fixedSize / 2);
          fixedReadY = max 0 (real_of_int (snd centerPixel) - fixedSize / 2);
          fixedReadWidth = min (real_of_int (width info) - fixedReadX) fixedSize;
          fixedReadHeight = min (real_of_int (height info) - fixedReadY) fixedSize
      in if fixedReadWidth \<le> 0 \<or> fixedReadHeight \<le> 0 then None
         else Some \<lparr> winX = Math_round fixedReadX, winY = Math_round fixedReadY,
                      winWidth = Math_round fixedReadWidth,
                      winHeight = Math_round fixedReadHeight \<rparr>)"

text \<open>
  Lines 353 to 364: the adjusted window of the normal path. \<open>None\<close> is the
  \<^verbatim>\<open>return sendEmptyTile()\<close> of line 363.
\<close>

definition clampWindow :: "rasterInfo \<Rightarrow> pixelWindow \<Rightarrow> pixelWindow option" where
  "clampWindow info w =
     (let adjustedReadX = max 0 (winX w);
          adjustedReadY = max 0 (winY w);
          adjustedReadWidth = min (width info - adjustedReadX) (winWidth w);
          adjustedReadHeight = min (height info - adjustedReadY) (winHeight w)
      in if adjustedReadWidth \<le> 0 \<or> adjustedReadHeight \<le> 0 then None
         else Some \<lparr> winX = adjustedReadX, winY = adjustedReadY,
                      winWidth = adjustedReadWidth, winHeight = adjustedReadHeight \<rparr>)"

subsection \<open>The pixel compositor (lines 297 to 311 and 373 to 387)\<close>

type_synonym u8 = "8 word"

text \<open>
  A band read gives a typed array of samples, modelled as a list of integers. A
  \<^verbatim>\<open>Buffer\<close> is a \<^verbatim>\<open>Uint8Array\<close>: storing the integer \<open>v\<close> keeps \<open>v\<close> modulo
  256. Reading a typed array past its end gives \<^verbatim>\<open>undefined\<close>, which is stored
  as 0; a store past the end of the buffer is ignored, as \<open>list_update\<close> does.
\<close>

definition toUint8 :: "int \<Rightarrow> u8" where
  "toUint8 v = word_of_int v"

definition sampleAt :: "int list \<Rightarrow> nat \<Rightarrow> u8" where
  "sampleAt data i = (if i < length data then toUint8 (data ! i) else 0)"

definition Buffer_alloc :: "int \<Rightarrow> u8 list" where
  "Buffer_alloc n = replicate (nat n) 0"

text \<open>The \<^verbatim>\<open>for\<close> loop of lines 383 to 387 (and 307 to 311), from \<open>i\<close> up to \<open>n\<close>.\<close>

function interleaveLoop ::
  "int list \<Rightarrow> int list \<Rightarrow> int list \<Rightarrow> nat \<Rightarrow> nat \<Rightarrow> u8 list \<Rightarrow> u8 list" where
  "interleaveLoop data1 data2 data3 n i rgbData =
     (if i < n
      then interleaveLoop data1 data2 data3 n (i + 1)
             (rgbData[i * 3 := sampleAt data1 i,
                      i * 3 + 1 := sampleAt data2 i,
                      i * 3 + 2 := sampleAt data3 i])
      else rgbData)"
  by pat_completeness auto
termination
  by (relation "measure (\<lambda>(data1, data2, data3, n, i, rgbData). n - i)") auto

declare interleaveLoop.simps [simp del]

definition rgbInterleave :: "int \<Rightarrow> int \<Rightarrow> int list \<Rightarrow> int list \<Rightarrow> int list \<Rightarrow> u8 list" where
  "rgbInterleave w h data1 data2 data3 =
     interleaveLoop data1 data2 data3 (nat (w * h)) 0 (Buffer_alloc (w * h * 3))"

subsection \<open>Images and responses (lines 122 to 137, 161 to 163 and 423 to 426)\<close>

text \<open>
  An image is described by the call that made it: \<open>Blank w h c bg\<close> is
  \<^verbatim>\<open>sharp({create: {width: w, height: h, channels: c, background: bg}}).png()\<close>,
  and \<open>Tile w h px\<close> is the PNG of a raw RGB buffer resized to \<open>w\<close> by \<open>h\<close> pixels
  (fit \<^verbatim>\<open>fill\<close>), with the pixels \<open>px\<close> that the codec computed.
\<close>

datatype image =
    Blank int int int "int \<times> int \<times> int \<times> int"
  | Tile int int "u8 list"

fun imageWidth :: "image \<Rightarrow> int" where
  "imageWidth (Blank w h c bg) = w"
| "imageWidth (Tile w h px) = w"

fun imageHeight :: "image \<Rightarrow> int" where
  "imageHeight (Blank w h c bg) = h"
| "imageHeight (Tile w h px) = h"

text \<open>An image whose every pixel has alpha 0; an RGB tile has no alpha channel.\<close>

fun fullyTransparent :: "image \<Rightarrow> bool" where
  "fullyTransparent (Blank w h c bg) = (c = 4 \<and> snd (snd (snd bg)) = 0)"
| "fullyTransparent (Tile w h px) = False"

text \<open>
  The object \<^verbatim>\<open>res\<close> at the moment the handler calls \<^verbatim>\<open>res.send\<close>: its status
  code, the headers set with \<^verbatim>\<open>res.setHeader\<close>, and the buffer handed to
  \<^verbatim>\<open>res.send\<close>. What Express then sends to the client is \<open>res_send\<close> below.
\<close>

record response =
  statusCode :: nat
  headers :: "(string \<times> string) list"
  body :: image

definition header :: "string \<Rightarrow> response \<Rightarrow> string option" where
  "header name res = map_of (headers res) name"

definition tileSize :: int where
  "tileSize = 256"

text \<open>
  No path of the handler calls \<^verbatim>\<open>res.status\<close>, so \<^verbatim>\<open>res.statusCode\<close> is the 200
  that Express starts from when \<^verbatim>\<open>res.send\<close> is called.
\<close>

definition sendEmptyTile :: response where
  "sendEmptyTile =
     \<lparr> statusCode = 200,
       headers = [(''Content-Type'', ''image/png'')],
       body = Blank tileSize tileSize 4 (255, 255, 255, 0) \<rparr>"

definition sendCached :: "image \<Rightarrow> response" where
  "sendCached cachedTile =
     \<lparr> statusCode = 200,
       headers = [(''Content-Type'', ''image/png''), (''X-Cache'', ''HIT'')],
       body = cachedTile \<rparr>"

definition sendTile :: "image \<Rightarrow> response" where
  "sendTile tileBuffer =
     \<lparr> statusCode = 200,
       headers = [(''Content-Type'', ''image/png''), (''X-Cache'', ''MISS'')],
       body = tileBuffer \<rparr>"

subsection \<open>The tile cache (lines 117, 159, 160, 339 and 415 to 421)\<close>

text \<open>
  A JavaScript \<^verbatim>\<open>Map\<close> keeps its entries in insertion order: an association list,
  oldest entry first. The key \<^verbatim>\<open>`${z}_${x}_${y}`\<close> is modelled by the triple
  \<open>(z, x, y)\<close>, which the string determines.
\<close>

type_synonym tileKey = "int \<times> int \<times> int"
type_synonym tileCache = "(tileKey \<times> image) list"

definition mapHas :: "tileCache \<Rightarrow> tileKey \<Rightarrow> bool" where
  "mapHas m k = (map_of m k \<noteq> None)"

definition mapGet :: "tileCache \<Rightarrow> tileKey \<Rightarrow> image option" where
  "mapGet m k = map_of m k"

text \<open>\<^verbatim>\<open>set\<close> replaces the value of a key in place and appends a new key.\<close>

fun mapSet :: "tileKey \<Rightarrow> image \<Rightarrow> tileCache \<Rightarrow> tileCache" where
  "mapSet k v [] = [(k, v)]"
| "mapSet k v (p # ps) = (if fst p = k then (k, v) # ps else p # mapSet k v ps)"

definition mapDelete :: "tileKey \<Rightarrow> tileCache \<Rightarrow> tileCache" where
  "mapDelete k m = filter (\<lambda>p. fst p \<noteq> k) m"

definition mapSize :: "tileCache \<Rightarrow> nat" where
  "mapSize m = length m"

text \<open>Lines 417 to 421.\<close>

definition limitCache :: "tileCache \<Rightarrow> tileCache" where
  "limitCache m =
     (if mapSize m > 1000
      then (case m of [] \<Rightarrow> m | firstEntry # rest \<Rightarrow> mapDelete (fst firstEntry) m)
      else m)"

subsection \<open>The collaborators\<close>

text \<open>
  \<open>dataset\<close> is the result of \<^verbatim>\<open>initGdalDataset()\<close> (\<open>None\<close>: it throws, or gives
  no dataset); \<open>proj4\<close> is \<^verbatim>\<open>proj4('EPSG:4326', tifProjection, [lon, lat])\<close>;
  \<open>pixelsRead i x y w h\<close> is \<^verbatim>\<open>dataset.bands.get(i).pixels.read(x, y, w, h)\<close>;
  \<open>sharpResize w h rgb size\<close> is the pixels of the \<^verbatim>\<open>sharp\<close> pipeline of lines 390
  to 412 on the raw buffer \<open>rgb\<close> of \<open>w\<close> by \<open>h\<close> pixels, resized to \<open>size\<close> by \<open>size\<close>.
\<close>

record env =
  dataset :: "rasterInfo option"
  proj4 :: "real \<times> real \<Rightarrow> (real \<times> real) option"
  pixelsRead :: "nat \<Rightarrow> int \<Rightarrow> int \<Rightarrow> int \<Rightarrow> int \<Rightarrow> int list option"
  sharpResize :: "int \<Rightarrow> int \<Rightarrow> u8 list \<Rightarrow> int \<Rightarrow> u8 list option"

subsection \<open>The window resolver (lines 179 to 364)\<close>

text \<open>Lines 179 to 214: the four corners of the tile, as pixels of the raster.\<close>

definition cornerPixels ::
  "env \<Rightarrow> rasterInfo \<Rightarrow> int \<Rightarrow> int \<Rightarrow> int \<Rightarrow> (pixel \<times> pixel \<times> pixel \<times> pixel) option" where
  "cornerPixels e info z x y =
     (let nw = tileToLatLon x y z;
          ne = tileToLatLon (x + 1) y z;
          sw = tileToLatLon x (y + 1) z;
          se = tileToLatLon (x + 1) (y + 1) z
      in case proj4 e (lon nw, lat nw) of None \<Rightarrow> None | Some nwProj \<Rightarrow>
         (case proj4 e (lon ne, lat ne) of None \<Rightarrow> None | Some neProj \<Rightarrow>
         (case proj4 e (lon sw, lat sw) of None \<Rightarrow> None | Some swProj \<Rightarrow>
         (case proj4 e (lon se, lat se) of None \<Rightarrow> None | Some seProj \<Rightarrow>
            Some (projToPixel info nwProj, projToPixel info neProj,
                  projToPixel info swProj, projToPixel info seProj)))))"

text \<open>Lines 263 to 270: the centre of the tile, as a pixel of the raster.\<close>

definition centerPixel :: "env \<Rightarrow> rasterInfo \<Rightarrow> int \<Rightarrow> int \<Rightarrow> int \<Rightarrow> pixel option" where
  "centerPixel e info z x y =
     (let nw = tileToLatLon x y z;
          se = tileToLatLon (x + 1) (y + 1) z;
          centerLon = (lon nw + lon se) / 2;
          centerLat = (lat nw + lat se) / 2
      in case proj4 e (centerLon, centerLat) of None \<Rightarrow> None
         | Some centerProj \<Rightarrow> Some (projToPixel info centerProj))"

text \<open>
  The outcome of the resolver: the empty tile, the window of the normal path, or the
  fixed window of the path for high zooms.
\<close>

datatype resolution = NoCoverage | Clamped pixelWindow | FixedFallback pixelWindow

definition resolveWindow :: "env \<Rightarrow> rasterInfo \<Rightarrow> int \<Rightarrow> int \<Rightarrow> int \<Rightarrow> resolution" where
  "resolveWindow e info z x y =
     (case cornerPixels e info z x y of None \<Rightarrow> NoCoverage
      | Some (nwPixel, nePixel, swPixel, sePixel) \<Rightarrow>
          let w = boundingWindow nwPixel nePixel swPixel sePixel
          in if outOfBounds info w then NoCoverage
             else if oversize info w then
               (if z \<ge> 14 then
                  (case centerPixel e info z x y of None \<Rightarrow> NoCoverage
                   | Some c \<Rightarrow>
                       (case fixedWindow info c of None \<Rightarrow> NoCoverage
                        | Some fw \<Rightarrow> FixedFallback fw))
                else NoCoverage)
             else (case clampWindow info w of None \<Rightarrow> NoCoverage
                   | Some cw \<Rightarrow> Clamped cw))"

subsection \<open>The handler (lines 119 to 439)\<close>

text \<open>
  Lines 297 to 336 and 373 to 412: the three band reads, the interleaved buffer and the
  \<^verbatim>\<open>sharp\<close> pipeline. \<open>None\<close>: one of the calls throws, and the handler's
  \<^verbatim>\<open>catch\<close> sends the empty tile.
\<close>

definition renderTile :: "env \<Rightarrow> pixelWindow \<Rightarrow> image option" where
  "renderTile e w =
     (case pixelsRead e 1 (winX w) (winY w) (winWidth w) (winHeight w) of None \<Rightarrow> None
      | Some data1 \<Rightarrow>
     (case pixelsRead e 2 (winX w) (winY w) (winWidth w) (winHeight w) of None \<Rightarrow> None
      | Some data2 \<Rightarrow>
     (case pixelsRead e 3 (winX w) (winY w) (winWidth w) (winHeight w) of None \<Rightarrow> None
      | Some data3 \<Rightarrow>
     (case sharpResize e (winWidth w) (winHeight w)
             (rgbInterleave (winWidth w) (winHeight w) data1 data2 data3) tileSize of
        None \<Rightarrow> None
      | Some px \<Rightarrow> Some (Tile tileSize tileSize px)))))"

text \<open>
  One request: the response and the cache after it. The path of the fixed window stores
  the tile (line 339) and does not run the lines 417 to 421; the normal path stores it
  (line 415) and runs them.
\<close>

definition handleTile :: "env \<Rightarrow> tileCache \<Rightarrow> tileKey \<Rightarrow> response \<times> tileCache" where
  "handleTile e tileCache k =
     (case k of (z, x, y) \<Rightarrow>
      (case dataset e of None \<Rightarrow> (sendEmptyTile, tileCache)
       | Some info \<Rightarrow>
          let cacheKey = (z, x, y)
          in if mapHas tileCache cacheKey
             then (let cachedTile = the (mapGet tileCache cacheKey)
                   in (sendCached cachedTile, tileCache))
             else
               (case resolveWindow e info z x y of
                  NoCoverage \<Rightarrow> (sendEmptyTile, tileCache)
                | FixedFallback w \<Rightarrow>
                    (case renderTile e w of None \<Rightarrow> (sendEmptyTile, tileCache)
                     | Some tileBuffer \<Rightarrow>
                         (sendTile tileBuffer, mapSet cacheKey tileBuffer tileCache))
                | Clamped w \<Rightarrow>
                    (case renderTile e w of None \<Rightarrow> (sendEmptyTile, tileCache)
                     | Some tileBuffer \<Rightarrow>
                         (sendTile tileBuffer,
                          limitCache (mapSet cacheKey tileBuffer tileCache))))))"

text \<open>A sequence of requests, one after the other, on the cache they share.\<close>

fun serve :: "env \<Rightarrow> tileCache \<Rightarrow> tileKey list \<Rightarrow> tileCache" where
  "serve e tileCache [] = tileCache"
| "serve e tileCache (k # ks) = serve e (snd (handleTile e tileCache k)) ks"

subsection \<open>What Express sends (\<^verbatim>\<open>res.send\<close>)\<close>

text \<open>
  The handler answers through \<^verbatim>\<open>res.send\<close> of Express 4, and \<^verbatim>\<open>server.js\<close>
  leaves the \<^verbatim>\<open>etag\<close> setting of the application at its default. \<^verbatim>\<open>res.send\<close>
  computes an entity tag of the buffer and sets the header \<^verbatim>\<open>ETag\<close>; when
  \<^verbatim>\<open>req.fresh\<close> holds it sets the status 304; for the status 204 or 304 it removes
  \<^verbatim>\<open>Content-Type\<close> and sends no body. The library is not part of the repository:
  \<open>fresh\<close> follows the package \<^verbatim>\<open>fresh\<close> that \<^verbatim>\<open>req.fresh\<close> calls, the
  function that computes the tag is a parameter, and the headers that no property reads
  (\<^verbatim>\<open>Content-Length\<close>, those of \<^verbatim>\<open>cors\<close>) are left out.

  The request is a \<^verbatim>\<open>GET\<close>, with its conditional headers parsed:
  \<^verbatim>\<open>If-None-Match\<close> is \<^verbatim>\<open>*\<close> or a list of tags, \<^verbatim>\<open>If-Modified-Since\<close> is a
  date, and \<open>noCache\<close> says that \<^verbatim>\<open>Cache-Control\<close> holds \<^verbatim>\<open>no-cache\<close>.
\<close>

datatype noneMatch = AnyETag | ETags "string list"

record request =
  ifNoneMatch :: "noneMatch option"
  ifModifiedSince :: "string option"
  noCache :: bool

text \<open>The weak comparison of a tag of the request with the tag of the response.\<close>

definition etagMatches :: "string \<Rightarrow> string \<Rightarrow> bool" where
  "etagMatches match etag =
     (match = etag \<or> match = ''W/'' @ etag \<or> ''W/'' @ match = etag)"

text \<open>
  \<^verbatim>\<open>fresh(reqHeaders, resHeaders)\<close> for a response with the tag \<open>etag\<close> and without
  \<^verbatim>\<open>Last-Modified\<close>, which the handler never sets.
\<close>

definition fresh :: "request \<Rightarrow> string \<Rightarrow> bool" where
  "fresh req etag =
     (if ifModifiedSince req = None \<and> ifNoneMatch req = None then False
      else if noCache req then False
      else if (case ifNoneMatch req of
                 Some (ETags matches) \<Rightarrow> \<not> list_ex (\<lambda>match. etagMatches match etag) matches
               | _ \<Rightarrow> False) then False
      else if ifModifiedSince req \<noteq> None then False
      else True)"

record reply =
  replyStatus :: nat
  replyHeaders :: "(string \<times> string) list"
  replyBody :: "image option"

definition replyHeader :: "string \<Rightarrow> reply \<Rightarrow> string option" where
  "replyHeader name r = map_of (replyHeaders r) name"

definition res_send :: "(image \<Rightarrow> string) \<Rightarrow> request \<Rightarrow> response \<Rightarrow> reply" where
  "res_send etagFn req res =
     (let etag = etagFn (body res);
          hs = headers res @ [(''ETag'', etag)];
          status = (if (200 \<le> statusCode res \<and> statusCode res < 300 \<or> statusCode res = 304)
                       \<and> fresh req etag
                    then 304 else statusCode res)
      in if status = 204 \<or> status = 304
         then \<lparr> replyStatus = status,
                replyHeaders = filter (\<lambda>h. fst h \<noteq> ''Content-Type'') hs,
                replyBody = None \<rparr>
         else \<lparr> replyStatus = status, replyHeaders = hs, replyBody = Some (body res) \<rparr>)"

text \<open>One request to the endpoint: what the client receives, and the cache after it.\<close>

definition tileEndpoint ::
  "(image \<Rightarrow> string) \<Rightarrow> env \<Rightarrow> request \<Rightarrow> tileCache \<Rightarrow> tileKey \<Rightarrow> reply \<times> tileCache" where
  "tileEndpoint etagFn e req tileCache k =
     (case handleTile e tileCache k of
        (res, tileCache') \<Rightarrow> (res_send etagFn req res, tileCache'))"

subsection \<open>Predicates of the specification\<close>

text \<open>The byte of the interleaved buffer at index \<open>k\<close>, as the loop leaves it.\<close>

definition bandAt :: "int list \<Rightarrow> int list \<Rightarrow> int list \<Rightarrow> nat \<Rightarrow> u8" where
  "bandAt data1 data2 data3 k =
     (if k mod 3 = 0 then sampleAt data1 (k div 3)
      else if k mod 3 = 1 then sampleAt data2 (k div 3)
      else sampleAt data3 (k div 3))"

text \<open>A sample that fits a byte.\<close>

definition byteSample :: "int \<Rightarrow> bool" where
  "byteSample v = (0 \<le> v \<and> v \<le> 255)"

text \<open>
  Following the specification's words, in exact arithmetic: the longitude and the
  latitude of a tile corner, and the pixel of a projected point.
\<close>

definition specLon :: "int \<Rightarrow> int \<Rightarrow> real" where
  "specLon x z = real_of_int x / 2 ^ nat z * 360 - 180"

definition specLat :: "int \<Rightarrow> int \<Rightarrow> real" where
  "specLat y z = 180 / pi * arctan (sinh (pi - 2 * pi * real_of_int y / 2 ^ nat z))"

definition specPixel :: "rasterInfo \<Rightarrow> real \<times> real \<Rightarrow> pixel" where
  "specPixel info p =
     (round ((fst p - originX info) / pixelWidth info),
      round ((snd p - originY info) / pixelHeight info))"

text \<open>The pixel \<open>p\<close> is a pixel of the raster.\<close>

definition insideRaster :: "rasterInfo \<Rightarrow> pixel \<Rightarrow> bool" where
  "insideRaster info p =
     (0 \<le> fst p \<and> fst p < width info \<and> 0 \<le> snd p \<and> snd p < height info)"

text \<open>
  Following the specification's words: the window, which covers the columns from \<open>x\<close>
  to \<open>x + width\<close> and the rows from \<open>y\<close> to \<open>y + height\<close>, lies entirely outside
  the rectangle of the raster.
\<close>

definition liesEntirelyOutside :: "rasterInfo \<Rightarrow> pixelWindow \<Rightarrow> bool" where
  "liesEntirelyOutside info w =
     (winX w + winWidth w \<le> 0 \<or> width info \<le> winX w \<or>
      winY w + winHeight w \<le> 0 \<or> height info \<le> winY w)"

text \<open>Following the specification's words: the invariant of an adjusted window.\<close>

definition validWindow :: "rasterInfo \<Rightarrow> pixelWindow \<Rightarrow> bool" where
  "validWindow info w =
     (0 \<le> winX w \<and> 0 \<le> winY w \<and> 0 < winWidth w \<and> 0 < winHeight w \<and>
      winX w + winWidth w \<le> width info \<and> winY w + winHeight w \<le> height info)"

subsection \<open>A synthetic raster and projection\<close>

text \<open>
  A raster of \<open>W\<close> by \<open>H\<close> pixels with a unit geotransform, and a projection under
  which the tiles \<open>(14, 8192, y)\<close> have their west edge at the column \<open>col0\<close>, their
  east edge at \<open>col0 + wd\<close>, and their corners at the rows \<open>row0\<close> and \<open>row0 + ht\<close>.
  The projection reads the longitude only, so that every tile of this column falls on
  the same pixels, with its centre in the middle of them; the tiles \<open>(16, 32768, y)\<close>
  start at the same pixel and are a quarter as wide and as high. The band reader refuses a
  window that is not inside the raster and gives the constant bands 10, 20 and 30; the
  codec answers with the first pixel of the raw buffer.
\<close>

definition synthInfo :: "int \<Rightarrow> int \<Rightarrow> rasterInfo" where
  "synthInfo W H =
     \<lparr> width = W, height = H, originX = 0, pixelWidth = 1, skewX = 0,
       originY = 0, skewY = 0, pixelHeight = - 1 \<rparr>"

text \<open>
  A raster whose pixel size is the double \<^verbatim>\<open>0.1\<close>, that is
  \<open>3602879701896397 / 2 ^ 55\<close>, with the origin at 0.
\<close>

definition tenthInfo :: rasterInfo where
  "tenthInfo =
     \<lparr> width = 100, height = 100, originX = 0,
       pixelWidth = 3602879701896397 / 36028797018963968, skewX = 0,
       originY = 0, skewY = 0,
       pixelHeight = - (3602879701896397 / 36028797018963968) \<rparr>"

definition synthProj :: "int \<Rightarrow> int \<Rightarrow> int \<Rightarrow> int \<Rightarrow> real \<times> real \<Rightarrow> (real \<times> real) option" where
  "synthProj col0 wd row0 ht p =
     Some (real_of_int col0 + fst p * (2048 / 45) * real_of_int wd,
           - (real_of_int row0 + fst p * (2048 / 45) * real_of_int ht))"

definition synthRead :: "int \<Rightarrow> int \<Rightarrow> nat \<Rightarrow> int \<Rightarrow> int \<Rightarrow> int \<Rightarrow> int \<Rightarrow> int list option" where
  "synthRead W H i x y w h =
     (if 0 \<le> x \<and> 0 \<le> y \<and> 0 < w \<and> 0 < h \<and> x + w \<le> W \<and> y + h \<le> H
      then Some (replicate (nat (w * h)) (10 * int i)) else None)"

definition synthEnv :: "int \<Rightarrow> int \<Rightarrow> int \<Rightarrow> int \<Rightarrow> int \<Rightarrow> int \<Rightarrow> env" where
  "synthEnv W H col0 wd row0 ht =
     \<lparr> dataset = Some (synthInfo W H),
       proj4 = synthProj col0 wd row0 ht,
       pixelsRead = synthRead W H,
       sharpResize = (\<lambda>w h rgb size. Some (take 3 rgb)) \<rparr>"

text \<open>
  A request without conditional headers, a request that revalidates the tag \<open>tag\<close>,
  and a function for the tags: one tag for the empty tile, one for a rendered tile.
\<close>

definition plainGet :: request where
  "plainGet = \<lparr> ifNoneMatch = None, ifModifiedSince = None, noCache = False \<rparr>"

definition revalidate :: "string \<Rightarrow> request" where
  "revalidate tag = \<lparr> ifNoneMatch = Some (ETags [tag]), ifModifiedSince = None, noCache = False \<rparr>"

fun synthETag :: "image \<Rightarrow> string" where
  "synthETag (Blank w h c bg) = ''W/blank''"
| "synthETag (Tile w h px) = ''W/tile''"

section \<open>Properties\<close>

subsection \<open>Coordinate transforms\<close>

lemma Math_round_round: "Math_round v = round v"
  by (simp add: Math_round_def round_def)

lemma Math_pow2_nat: "0 \<le> z \<Longrightarrow> Math_pow2 z = 2 ^ nat z"
  by (simp add: Math_pow2_def powr_realpow [symmetric])

lemma min4_Min: "Math_min4 a b c d = Min {a, b, c, d}"
  by (simp add: Math_min4_def min.commute min.left_commute)

lemma max4_Max: "Math_max4 a b c d = Max {a, b, c, d}"
  by (simp add: Math_max4_def max.commute max.left_commute)

lemma Math_round_int: "Math_round (real_of_int n) = n"
  by (simp add: Math_round_def)

subsection \<open>Rounding to the nearest double\<close>

lemma roundHalfEven_int: "roundHalfEven (real_of_int m) = m"
  by (simp add: roundHalfEven_def)

lemma roundHalfEven_near:
  assumes "\<bar>v - real_of_int m\<bar> < 1 / 2"
  shows "roundHalfEven v = m"
proof (cases "real_of_int m \<le> v")
  case True
  then have "\<lfloor>v\<rfloor> = m"
    using assms by (intro floor_unique) linarith+
  then show ?thesis
    using assms True by (simp add: roundHalfEven_def Let_def)
next
  case False
  then have f: "\<lfloor>v\<rfloor> = m - 1"
    using assms by (intro floor_unique) (simp, linarith)+
  have "v - real_of_int (m - 1) > 1 / 2"
    using assms False by simp
  then show ?thesis
    unfolding roundHalfEven_def Let_def f by simp
qed

lemma binade_eq:
  assumes "2 powr real_of_int e \<le> \<bar>v\<bar>" and "\<bar>v\<bar> < 2 powr (real_of_int e + 1)"
  shows "binade v = e"
proof -
  have pos: "0 < \<bar>v\<bar>"
    using assms(1) by (smt (verit) powr_gt_zero)
  have "real_of_int e \<le> log 2 \<bar>v\<bar>"
    using assms(1) pos by (simp add: le_log_iff)
  moreover have "log 2 \<bar>v\<bar> < real_of_int e + 1"
    using assms(2) pos by (simp add: log_less_iff)
  ultimately show ?thesis
    unfolding binade_def by (simp add: floor_unique)
qed

lemma binade_less:
  assumes "v \<noteq> 0" and "\<bar>v\<bar> < 2 powr real_of_int n"
  shows "binade v < n"
proof -
  have "log 2 \<bar>v\<bar> < real_of_int n"
    using assms by (simp add: log_less_iff)
  then show ?thesis
    unfolding binade_def by (simp add: floor_less_iff)
qed

text \<open>A number that is a multiple of its \<open>ulp\<close> is a double.\<close>

lemma toDouble_exact:
  assumes "v / 2 powr real_of_int (max (binade v) (- 1022) - 52) = real_of_int m"
  shows "toDouble v = v"
proof (cases "v = 0")
  case True
  then show ?thesis by (simp add: toDouble_def)
next
  case False
  let ?u = "2 powr real_of_int (max (binade v) (- 1022) - 52)"
  have u: "0 < ?u" by simp
  have "?u * real_of_int (roundHalfEven (v / ?u)) = ?u * (v / ?u)"
    by (simp only: assms roundHalfEven_int)
  also have "\<dots> = v"
    using u by simp
  finally show ?thesis
    using False by (simp add: toDouble_def Let_def)
qed

lemma of_int_less_two_53: "\<bar>k\<bar> < 2 ^ 53 \<Longrightarrow> real_of_int \<bar>k\<bar> < 2 ^ 53" for k :: int
proof -
  assume "\<bar>k\<bar> < 2 ^ 53"
  then have "real_of_int \<bar>k\<bar> < real_of_int (2 ^ 53)"
    by (simp only: of_int_less_iff)
  then show ?thesis by simp
qed

lemma two_53_powr: "(2 :: real) ^ 53 / 2 ^ j = 2 powr real_of_int (53 - int j)"
proof -
  have "(2 :: real) powr real_of_int (53 - int j) = 2 powr 53 / 2 powr real j"
    by (simp add: powr_diff)
  also have "\<dots> = 2 ^ 53 / 2 ^ j"
    by (simp add: powr_realpow)
  finally show ?thesis by simp
qed

lemma dyadic_over_ulp:
  "real_of_int k / 2 ^ j / 2 powr real_of_int E
     = real_of_int k * 2 powr (- real_of_int (int j) - real_of_int E)"
proof -
  have "2 powr (- real_of_int (int j) - real_of_int E) = 1 / 2 powr real j / 2 powr real_of_int E"
    by (simp add: powr_diff powr_minus divide_inverse)
  also have "2 powr real j = (2 :: real) ^ j"
    by (simp add: powr_realpow)
  finally show ?thesis by simp
qed

text \<open>Every \<open>k / 2^j\<close> with \<open>\<bar>k\<bar> < 2^53\<close> and \<open>j \<le> 1074\<close> is a double.\<close>

lemma toDouble_dyadic:
  assumes "\<bar>k\<bar> < 2 ^ 53" and "j \<le> 1074"
  shows "toDouble (real_of_int k / 2 ^ j) = real_of_int k / 2 ^ j"
proof (cases "k = 0")
  case True
  then show ?thesis by (simp add: toDouble_def)
next
  case False
  let ?v = "real_of_int k / 2 ^ j"
  let ?E = "max (binade ?v) (- 1022) - 52"
  have nz: "?v \<noteq> 0"
    using False by simp
  have "\<bar>?v\<bar> = real_of_int \<bar>k\<bar> / 2 ^ j"
    by simp
  also have "\<dots> < 2 ^ 53 / 2 ^ j"
    using of_int_less_two_53 [OF assms(1)] by (simp add: divide_strict_right_mono)
  also have "\<dots> = 2 powr real_of_int (53 - int j)"
    by (rule two_53_powr)
  finally have "binade ?v < 53 - int j"
    using nz binade_less by blast
  then have E: "?E \<le> - int j"
    using assms(2) by linarith
  define d where "d = nat (- int j - ?E)"
  have d: "real d = - real_of_int (int j) - real_of_int ?E"
  proof -
    have "int d = - int j - ?E"
      using E by (simp add: d_def)
    then have "real_of_int (int d) = real_of_int (- int j - ?E)"
      by (simp only:)
    then show ?thesis by simp
  qed
  have "?v / 2 powr real_of_int ?E
        = real_of_int k * 2 powr (- real_of_int (int j) - real_of_int ?E)"
    by (rule dyadic_over_ulp)
  also have "\<dots> = real_of_int k * 2 powr real d"
    by (simp only: d)
  also have "\<dots> = real_of_int (k * 2 ^ d)"
    by (simp add: powr_realpow)
  finally show ?thesis
    by (rule toDouble_exact)
qed

lemma toDouble_int: "\<bar>n\<bar> < 2 ^ 53 \<Longrightarrow> toDouble (real_of_int n) = real_of_int n"
  using toDouble_dyadic [of n 0] by simp

lemma toDouble_half: "\<bar>n\<bar> < 2 ^ 53 \<Longrightarrow> toDouble (real_of_int n / 2) = real_of_int n / 2"
  using toDouble_dyadic [of n 1] by simp

lemma toDouble_numeral:
  "(numeral k :: int) < 2 ^ 53 \<Longrightarrow> toDouble (numeral k) = numeral k"
  "(numeral k :: int) < 2 ^ 53 \<Longrightarrow> toDouble (- numeral k) = - numeral k"
  using toDouble_int [of "numeral k"] toDouble_int [of "- numeral k"] by simp_all

lemma powr_neg_nat: "(2 :: real) powr (- real n) = 1 / 2 ^ n"
proof -
  have "(2 :: real) powr (- real n) = inverse (2 powr real n)"
    by (rule powr_minus)
  also have "(2 :: real) powr real n = 2 ^ n"
    by (rule powr_realpow) simp
  finally show ?thesis
    by (simp only: inverse_eq_divide)
qed

text \<open>
  \<^verbatim>\<open>0.25 / 0.1\<close> in doubles: the exact quotient is a little less than 2.5 and the
  nearest double is 2.5.
\<close>

lemma toDouble_quarter_by_tenth:
  "toDouble ((1 / 4) / (3602879701896397 / 36028797018963968)) = 5 / 2"
proof -
  let ?v = "9007199254740992 / 3602879701896397 :: real"
  have v: "(1 / 4) / (3602879701896397 / 36028797018963968) = ?v"
    by simp
  have p: "(2 :: real) powr real_of_int 1 = 2" "(2 :: real) powr (real_of_int 1 + 1) = 4"
    using powr_realpow [of 2 2] by simp_all
  have "2 \<le> \<bar>?v\<bar>" "\<bar>?v\<bar> < 4"
    by simp_all
  then have b: "binade ?v = 1"
    by (intro binade_eq) (simp_all only: p)
  have u: "(2 :: real) powr real_of_int (max 1 (- 1022) - 52) = 1 / 2 ^ 51"
  proof -
    have "(2 :: real) powr real_of_int (max 1 (- 1022) - 52) = 2 powr (- real (51 :: nat))"
      by simp
    then show ?thesis
      by (simp only: powr_neg_nat)
  qed
  have r: "roundHalfEven (?v / (1 / 2 ^ 51)) = 5629499534213120"
    by (rule roundHalfEven_near) simp
  have nz: "?v \<noteq> 0" by simp
  have "toDouble ?v = 1 / 2 ^ 51 * real_of_int 5629499534213120"
    unfolding toDouble_def Let_def b u r using nz by (simp only: if_False)
  also have "\<dots> = 5 / 2"
    by simp
  finally show ?thesis
    by (simp only: v)
qed

subsection \<open>The pixel compositor\<close>

lemma interleaveLoop_length:
  "length (interleaveLoop data1 data2 data3 n i rgbData) = length rgbData"
proof (induction data1 data2 data3 n i rgbData rule: interleaveLoop.induct)
  case (1 data1 data2 data3 n i rgbData)
  show ?case
  proof (cases "i < n")
    case True
    with "1" show ?thesis
      by (subst interleaveLoop.simps) simp
  next
    case False
    then show ?thesis
      by (subst interleaveLoop.simps) simp
  qed
qed

lemma bandAt_triple:
  "bandAt data1 data2 data3 (3 * i) = sampleAt data1 i"
  "bandAt data1 data2 data3 (3 * i + 1) = sampleAt data2 i"
  "bandAt data1 data2 data3 (3 * i + 2) = sampleAt data3 i"
proof -
  have "(3 * i) mod 3 = 0" "(3 * i) div 3 = i"
       "(3 * i + 1) mod 3 = 1" "(3 * i + 1) div 3 = i"
       "(3 * i + 2) mod 3 = 2" "(3 * i + 2) div 3 = i"
    by presburger+
  then show "bandAt data1 data2 data3 (3 * i) = sampleAt data1 i"
    "bandAt data1 data2 data3 (3 * i + 1) = sampleAt data2 i"
    "bandAt data1 data2 data3 (3 * i + 2) = sampleAt data3 i"
    unfolding bandAt_def by simp_all
qed

lemma interleaveLoop_nth:
  "k < length rgbData \<Longrightarrow> n * 3 \<le> length rgbData \<Longrightarrow>
   interleaveLoop data1 data2 data3 n i rgbData ! k =
     (if i * 3 \<le> k \<and> k < n * 3 then bandAt data1 data2 data3 k else rgbData ! k)"
proof (induction data1 data2 data3 n i rgbData rule: interleaveLoop.induct)
  case (1 data1 data2 data3 n i rgbData)
  show ?case
  proof (cases "i < n")
    case True
    let ?buf = "rgbData[i * 3 := sampleAt data1 i, i * 3 + 1 := sampleAt data2 i,
                        i * 3 + 2 := sampleAt data3 i]"
    have step: "interleaveLoop data1 data2 data3 n i rgbData
                = interleaveLoop data1 data2 data3 n (i + 1) ?buf"
      using True by (subst interleaveLoop.simps) simp
    have ih: "interleaveLoop data1 data2 data3 n (i + 1) ?buf ! k =
       (if (i + 1) * 3 \<le> k \<and> k < n * 3 then bandAt data1 data2 data3 k else ?buf ! k)"
      using "1.IH" [OF True] "1.prems" by simp
    have here: "i * 3 \<le> k \<Longrightarrow> k < (i + 1) * 3 \<Longrightarrow> ?buf ! k = bandAt data1 data2 data3 k"
    proof -
      assume a: "i * 3 \<le> k" "k < (i + 1) * 3"
      then consider "k = i * 3" | "k = i * 3 + 1" | "k = i * 3 + 2"
        by atomize_elim arith
      then show ?thesis
        using "1.prems" bandAt_triple [of data1 data2 data3 i]
        by cases (simp_all add: mult.commute)
    qed
    have before: "k < i * 3 \<Longrightarrow> ?buf ! k = rgbData ! k"
      by simp
    have after: "n * 3 \<le> k \<Longrightarrow> ?buf ! k = rgbData ! k"
      using True by simp
    show ?thesis
      unfolding step ih using here before after True by (auto simp: not_le not_less)
  next
    case False
    then show ?thesis
      by (subst interleaveLoop.simps) auto
  qed
qed

lemma rgbInterleave_length:
  "length (rgbInterleave w h data1 data2 data3) = nat (w * h * 3)"
  by (simp add: rgbInterleave_def interleaveLoop_length Buffer_alloc_def)

lemma rgbInterleave_nth:
  assumes "0 \<le> w * h" and "k < nat (w * h) * 3"
  shows "rgbInterleave w h data1 data2 data3 ! k = bandAt data1 data2 data3 k"
proof -
  have l: "length (Buffer_alloc (w * h * 3)) = nat (w * h) * 3"
    using assms(1) by (simp add: Buffer_alloc_def nat_mult_distrib)
  show ?thesis
    unfolding rgbInterleave_def
    using interleaveLoop_nth [of k "Buffer_alloc (w * h * 3)" "nat (w * h)" data1 data2 data3 0]
      assms(2) l by simp
qed

lemma rgbInterleave_triple:
  assumes "0 \<le> w * h" and "i < nat (w * h)"
  shows "rgbInterleave w h data1 data2 data3 ! (3 * i) = sampleAt data1 i"
    and "rgbInterleave w h data1 data2 data3 ! (3 * i + 1) = sampleAt data2 i"
    and "rgbInterleave w h data1 data2 data3 ! (3 * i + 2) = sampleAt data3 i"
proof -
  have "3 * i < nat (w * h) * 3" "3 * i + 1 < nat (w * h) * 3" "3 * i + 2 < nat (w * h) * 3"
    using assms(2) by arith+
  then show "rgbInterleave w h data1 data2 data3 ! (3 * i) = sampleAt data1 i"
    and "rgbInterleave w h data1 data2 data3 ! (3 * i + 1) = sampleAt data2 i"
    and "rgbInterleave w h data1 data2 data3 ! (3 * i + 2) = sampleAt data3 i"
    using assms(1) by (simp_all only: rgbInterleave_nth bandAt_triple)
qed

lemma uint_toUint8: "uint (toUint8 v) = v mod 256"
  by (simp add: toUint8_def uint_word_of_int)

lemma uint_toUint8_byte: "byteSample v \<Longrightarrow> uint (toUint8 v) = v"
  by (simp add: uint_toUint8 byteSample_def)

lemma concat_replicate_nth:
  "k < n * 3 \<Longrightarrow> concat (replicate n [a, b, c]) ! k = [a, b, c] ! (k mod 3)"
proof (induction n arbitrary: k)
  case 0
  then show ?case by simp
next
  case (Suc n)
  show ?case
  proof (cases "k < 3")
    case True
    then consider "k = 0" | "k = 1" | "k = 2"
      by atomize_elim arith
    then show ?thesis by cases simp_all
  next
    case False
    have "k - 3 < n * 3"
      using False Suc.prems by simp
    moreover have m: "(k - 3) mod 3 = k mod 3"
      using False by (simp add: le_mod_geq)
    ultimately have "concat (replicate n [a, b, c]) ! (k - 3) = [a, b, c] ! (k mod 3)"
      using Suc.IH [of "k - 3"] by simp
    moreover have "concat (replicate (Suc n) [a, b, c]) ! k
                   = concat (replicate n [a, b, c]) ! (k - 3)"
    proof -
      have "concat (replicate (Suc n) [a, b, c]) = [a, b, c] @ concat (replicate n [a, b, c])"
        by simp
      then show ?thesis
        using False by (simp add: nth_append numeral_3_eq_3)
    qed
    ultimately show ?thesis by simp
  qed
qed

lemma length_concat_replicate3: "length (concat (replicate n [a, b, c])) = n * 3"
  by (induction n) simp_all

lemma rgbInterleave_constant:
  assumes "0 \<le> w * h"
  shows "rgbInterleave w h (replicate (nat (w * h)) r) (replicate (nat (w * h)) g)
           (replicate (nat (w * h)) b)
         = concat (replicate (nat (w * h)) [toUint8 r, toUint8 g, toUint8 b])"
proof (rule nth_equalityI)
  show "length (rgbInterleave w h (replicate (nat (w * h)) r) (replicate (nat (w * h)) g)
           (replicate (nat (w * h)) b))
        = length (concat (replicate (nat (w * h)) [toUint8 r, toUint8 g, toUint8 b]))"
    using assms by (simp add: rgbInterleave_length length_concat_replicate3 nat_mult_distrib)
next
  fix k
  assume "k < length (rgbInterleave w h (replicate (nat (w * h)) r)
                 (replicate (nat (w * h)) g) (replicate (nat (w * h)) b))"
  then have k: "k < nat (w * h) * 3"
    using assms by (simp add: rgbInterleave_length nat_mult_distrib)
  then have d: "k div 3 < nat (w * h)"
    by arith
  have m: "k mod 3 = 0 \<or> k mod 3 = 1 \<or> k mod 3 = 2"
    by arith
  have "rgbInterleave w h (replicate (nat (w * h)) r) (replicate (nat (w * h)) g)
          (replicate (nat (w * h)) b) ! k
        = [toUint8 r, toUint8 g, toUint8 b] ! (k mod 3)"
    using m d by (auto simp: rgbInterleave_nth [OF assms k] bandAt_def sampleAt_def)
  then show "rgbInterleave w h (replicate (nat (w * h)) r) (replicate (nat (w * h)) g)
          (replicate (nat (w * h)) b) ! k
        = concat (replicate (nat (w * h)) [toUint8 r, toUint8 g, toUint8 b]) ! k"
    by (simp only: concat_replicate_nth [OF k])
qed

text \<open>
  C7: for a window of positive width \<open>w\<close> and height \<open>h\<close> and three band arrays of
  length \<open>w * h\<close>, the buffer has the length \<open>3 * w * h\<close>, and for every sample index
  \<open>i\<close> the bytes at \<open>3 * i\<close>, \<open>3 * i + 1\<close> and \<open>3 * i + 2\<close> are the samples \<open>i\<close>
  of the first, second and third band, each as the assignment to a byte of the buffer
  stores it (a sample from 0 to 255 is stored as itself); the constant bands 10, 20 and
  30 give the triple (10, 20, 30) repeated \<open>w * h\<close> times.
\<close>

theorem interleave_correct:
  assumes "0 < w" and "0 < h"
    and "length data1 = nat (w * h)" and "length data2 = nat (w * h)"
    and "length data3 = nat (w * h)"
  shows "length (rgbInterleave w h data1 data2 data3) = 3 * nat w * nat h
       \<and> (\<forall>i < nat w * nat h.
            rgbInterleave w h data1 data2 data3 ! (3 * i) = toUint8 (data1 ! i)
          \<and> rgbInterleave w h data1 data2 data3 ! (3 * i + 1) = toUint8 (data2 ! i)
          \<and> rgbInterleave w h data1 data2 data3 ! (3 * i + 2) = toUint8 (data3 ! i))
       \<and> (\<forall>i < nat w * nat h.
            (byteSample (data1 ! i) \<longrightarrow>
               uint (rgbInterleave w h data1 data2 data3 ! (3 * i)) = data1 ! i)
          \<and> (byteSample (data2 ! i) \<longrightarrow>
               uint (rgbInterleave w h data1 data2 data3 ! (3 * i + 1)) = data2 ! i)
          \<and> (byteSample (data3 ! i) \<longrightarrow>
               uint (rgbInterleave w h data1 data2 data3 ! (3 * i + 2)) = data3 ! i))
       \<and> rgbInterleave w h (replicate (nat (w * h)) 10) (replicate (nat (w * h)) 20)
            (replicate (nat (w * h)) 30)
          = concat (replicate (nat w * nat h) [10, 20, 30])"
proof -
  have w0: "0 \<le> w" and h0: "0 \<le> h"
    using assms(1,2) by simp_all
  have wh: "0 \<le> w * h"
    using w0 h0 by simp
  have n: "nat (w * h) = nat w * nat h"
    using w0 by (rule nat_mult_distrib)
  have len: "length (rgbInterleave w h data1 data2 data3) = 3 * nat w * nat h"
    using n nat_mult_distrib [OF wh, of 3] by (simp add: rgbInterleave_length)
  have pos: "rgbInterleave w h data1 data2 data3 ! (3 * i) = toUint8 (data1 ! i)
     \<and> rgbInterleave w h data1 data2 data3 ! (3 * i + 1) = toUint8 (data2 ! i)
     \<and> rgbInterleave w h data1 data2 data3 ! (3 * i + 2) = toUint8 (data3 ! i)"
    if "i < nat w * nat h" for i
  proof -
    have i: "i < nat (w * h)" using that n by simp
    have s: "sampleAt data1 i = toUint8 (data1 ! i)" "sampleAt data2 i = toUint8 (data2 ! i)"
      "sampleAt data3 i = toUint8 (data3 ! i)"
      using i assms(3-5) by (simp_all add: sampleAt_def)
    show ?thesis
      unfolding rgbInterleave_triple [OF wh i] s by simp
  qed
  have const: "rgbInterleave w h (replicate (nat (w * h)) 10) (replicate (nat (w * h)) 20)
            (replicate (nat (w * h)) 30)
          = concat (replicate (nat w * nat h) [10, 20, 30])"
    using rgbInterleave_constant [OF wh, of 10 20 30] n by (simp add: toUint8_def)
  have byte: "(byteSample (data1 ! i) \<longrightarrow>
               uint (rgbInterleave w h data1 data2 data3 ! (3 * i)) = data1 ! i)
          \<and> (byteSample (data2 ! i) \<longrightarrow>
               uint (rgbInterleave w h data1 data2 data3 ! (3 * i + 1)) = data2 ! i)
          \<and> (byteSample (data3 ! i) \<longrightarrow>
               uint (rgbInterleave w h data1 data2 data3 ! (3 * i + 2)) = data3 ! i)"
    if "i < nat w * nat h" for i
    using pos [OF that] uint_toUint8_byte by presburger
  show ?thesis
    using len pos byte const by blast
qed

theorem interleave_correct_witness:
  "length (rgbInterleave 2 1 [10, 10] [20, 20] [30, 30]) = 6
   \<and> rgbInterleave 2 1 [10, 10] [20, 20] [30, 30] = [10, 20, 30, 10, 20, 30]"
proof -
  have r: "replicate (nat (2 * 1)) (10 :: int) = [10, 10]"
    "replicate (nat (2 * 1)) (20 :: int) = [20, 20]"
    "replicate (nat (2 * 1)) (30 :: int) = [30, 30]"
    "concat (replicate (nat 2 * nat 1) [10, 20, 30 :: u8]) = [10, 20, 30, 10, 20, 30]"
    by (simp_all add: numeral_2_eq_2)
  have t: "length (rgbInterleave 2 1 [10, 10] [20, 20] [30, 30]) = 3 * nat 2 * nat 1
       \<and> rgbInterleave 2 1 (replicate (nat (2 * 1)) 10) (replicate (nat (2 * 1)) 20)
            (replicate (nat (2 * 1)) 30)
          = concat (replicate (nat 2 * nat 1) [10, 20, 30])"
    using interleave_correct [of 2 1 "[10, 10]" "[20, 20]" "[30, 30]"] by simp
  then show ?thesis
    unfolding r by simp
qed

text \<open>
  C9: the compositor neither clamps nor rescales. The byte stored for the sample \<open>v\<close>
  is \<open>v\<close> modulo 256, in each of the three channels; the sample 300 is stored as 44,
  not as 255.
\<close>

theorem no_clamping_of_samples:
  "uint (toUint8 v) = v mod 256
   \<and> toUint8 300 = 44
   \<and> (0 \<le> w * h \<and> i < nat (w * h) \<and> i < length data1 \<longrightarrow>
        uint (rgbInterleave w h data1 data2 data3 ! (3 * i)) = data1 ! i mod 256)
   \<and> (0 \<le> w * h \<and> i < nat (w * h) \<and> i < length data2 \<longrightarrow>
        uint (rgbInterleave w h data1 data2 data3 ! (3 * i + 1)) = data2 ! i mod 256)
   \<and> (0 \<le> w * h \<and> i < nat (w * h) \<and> i < length data3 \<longrightarrow>
        uint (rgbInterleave w h data1 data2 data3 ! (3 * i + 2)) = data3 ! i mod 256)"
proof -
  have a: "toUint8 300 = 44"
    by (simp add: toUint8_def)
  have b: "uint (rgbInterleave w h data1 data2 data3 ! (3 * i)) = data1 ! i mod 256"
    if "0 \<le> w * h" "i < nat (w * h)" "i < length data1"
    unfolding rgbInterleave_triple [OF that(1,2)] using that(3)
    by (simp add: sampleAt_def uint_toUint8)
  have c: "uint (rgbInterleave w h data1 data2 data3 ! (3 * i + 1)) = data2 ! i mod 256"
    if "0 \<le> w * h" "i < nat (w * h)" "i < length data2"
    unfolding rgbInterleave_triple [OF that(1,2)] using that(3)
    by (simp add: sampleAt_def uint_toUint8)
  have d: "uint (rgbInterleave w h data1 data2 data3 ! (3 * i + 2)) = data3 ! i mod 256"
    if "0 \<le> w * h" "i < nat (w * h)" "i < length data3"
    unfolding rgbInterleave_triple [OF that(1,2)] using that(3)
    by (simp add: sampleAt_def uint_toUint8)
  show ?thesis
    using a b c d uint_toUint8 [of v] by blast
qed

theorem no_clamping_of_samples_witness:
  "uint (rgbInterleave 1 1 [300] [256] [-1] ! 0) = 44
   \<and> uint (rgbInterleave 1 1 [300] [256] [-1] ! 1) = 0
   \<and> uint (rgbInterleave 1 1 [300] [256] [-1] ! 2) = 255"
proof -
  have "uint (rgbInterleave 1 1 [300] [256] [-1] ! (3 * 0)) = [300] ! 0 mod 256
   \<and> uint (rgbInterleave 1 1 [300] [256] [-1] ! (3 * 0 + 1)) = [256] ! 0 mod 256
   \<and> uint (rgbInterleave 1 1 [300] [256] [-1] ! (3 * 0 + 2)) = [-1] ! 0 mod 256"
    using no_clamping_of_samples [of 300 1 1 0 "[300]" "[256]" "[-1]"] by simp
  then show ?thesis by (simp add: numeral_2_eq_2)
qed

subsection \<open>The synthetic raster\<close>

lemma synth_dataset: "dataset (synthEnv W H col0 wd row0 ht) = Some (synthInfo W H)"
  by (simp add: synthEnv_def)

lemma synth_lon:
  "lon (tileToLatLon 8192 y 14) = 0"
  "lon (tileToLatLon 8193 y 14) = 45 / 2048"
  "lon (tileToLatLon (8192 + 1) y 14) = 45 / 2048"
  by (simp_all add: tileToLatLon_def Let_def Math_pow2_def)

text \<open>The pixels of the synthetic raster are doubles.\<close>

lemma synth_projToPixel:
  assumes "\<bar>c\<bar> < 2 ^ 53" and "\<bar>r\<bar> < 2 ^ 53"
  shows "projToPixel (synthInfo W H) (real_of_int c, - real_of_int r) = (c, r)"
proof -
  have "toDouble (real_of_int c) = real_of_int c"
    using assms(1) by (rule toDouble_int)
  moreover have "toDouble (- real_of_int r) = - real_of_int r"
    using assms(2) toDouble_int [of "- r"] by simp
  moreover have "toDouble (real_of_int r) = real_of_int r"
    using assms(2) by (rule toDouble_int)
  ultimately show ?thesis
    by (simp add: projToPixel_def synthInfo_def Let_def Math_round_int)
qed

lemma synth_projToPixel_half:
  assumes "\<bar>c\<bar> < 2 ^ 53" and "\<bar>r\<bar> < 2 ^ 53"
  shows "projToPixel (synthInfo W H) (real_of_int c / 2, - (real_of_int r / 2))
         = (Math_round (real_of_int c / 2), Math_round (real_of_int r / 2))"
proof -
  have h1: "toDouble (real_of_int c / 2) = real_of_int c / 2"
    using assms(1) by (rule toDouble_half)
  have h2: "toDouble (- (real_of_int r / 2)) = - (real_of_int r / 2)"
    using assms(2) toDouble_half [of "- r"] by simp
  have h3: "toDouble (real_of_int r / 2) = real_of_int r / 2"
    using assms(2) by (rule toDouble_half)
  show ?thesis
    by (simp add: projToPixel_def synthInfo_def Let_def h1 h2 h3)
qed

lemma synth_proj4:
  "proj4 (synthEnv W H col0 wd row0 ht) (0, t)
   = Some (real_of_int col0, - real_of_int row0)"
  "proj4 (synthEnv W H col0 wd row0 ht) (45 / 2048, t)
   = Some (real_of_int (col0 + wd), - real_of_int (row0 + ht))"
  "proj4 (synthEnv W H col0 wd row0 ht) ((0 + 45 / 2048) / 2, t)
   = Some (real_of_int (2 * col0 + wd) / 2, - (real_of_int (2 * row0 + ht) / 2))"
  by (simp_all add: synthEnv_def synthProj_def field_simps)

lemma synth_cornerPixels:
  assumes "\<bar>col0\<bar> < 2 ^ 51" and "\<bar>wd\<bar> < 2 ^ 51"
    and "\<bar>row0\<bar> < 2 ^ 51" and "\<bar>ht\<bar> < 2 ^ 51"
  shows "cornerPixels (synthEnv W H col0 wd row0 ht) (synthInfo W H) 14 8192 y
   = Some ((col0, row0), (col0 + wd, row0 + ht), (col0, row0), (col0 + wd, row0 + ht))"
proof -
  have b: "\<bar>col0\<bar> < 2 ^ 53" "\<bar>row0\<bar> < 2 ^ 53" "\<bar>col0 + wd\<bar> < 2 ^ 53"
    "\<bar>row0 + ht\<bar> < 2 ^ 53"
    using assms by simp_all
  have w: "projToPixel (synthInfo W H) (real_of_int col0, - real_of_int row0) = (col0, row0)"
    using b(1,2) by (rule synth_projToPixel)
  have e: "projToPixel (synthInfo W H)
             (real_of_int (col0 + wd), - real_of_int (row0 + ht))
           = (col0 + wd, row0 + ht)"
    using b(3,4) by (rule synth_projToPixel)
  show ?thesis
    unfolding cornerPixels_def Let_def synth_lon synth_proj4
    by (simp only: option.case w e)
qed

lemma synth_centerPixel:
  assumes "\<bar>col0\<bar> < 2 ^ 51" and "\<bar>wd\<bar> < 2 ^ 51"
    and "\<bar>row0\<bar> < 2 ^ 51" and "\<bar>ht\<bar> < 2 ^ 51"
  shows "centerPixel (synthEnv W H col0 wd row0 ht) (synthInfo W H) 14 8192 y
   = Some (Math_round (real_of_int col0 + real_of_int wd / 2),
           Math_round (real_of_int row0 + real_of_int ht / 2))"
proof -
  have b: "\<bar>2 * col0 + wd\<bar> < 2 ^ 53" "\<bar>2 * row0 + ht\<bar> < 2 ^ 53"
    using assms by simp_all
  have c: "real_of_int col0 + real_of_int wd / 2 = real_of_int (2 * col0 + wd) / 2"
    "real_of_int row0 + real_of_int ht / 2 = real_of_int (2 * row0 + ht) / 2"
    by simp_all
  show ?thesis
    unfolding centerPixel_def Let_def synth_lon synth_proj4 c
    by (simp only: option.case synth_projToPixel_half [OF b])
qed

lemma synth_boundingWindow:
  "0 \<le> wd \<Longrightarrow> 0 \<le> ht \<Longrightarrow>
   boundingWindow (col0, row0) (col0 + wd, row0 + ht) (col0, row0) (col0 + wd, row0 + ht)
   = \<lparr> winX = col0, winY = row0, winWidth = wd, winHeight = ht \<rparr>"
  by (simp add: boundingWindow_def Let_def Math_min4_def Math_max4_def)

lemma synth_resolveWindow:
  assumes "0 \<le> wd" and "0 \<le> ht"
    and "\<bar>col0\<bar> < 2 ^ 51" and "wd < 2 ^ 51" and "\<bar>row0\<bar> < 2 ^ 51" and "ht < 2 ^ 51"
  shows "resolveWindow (synthEnv W H col0 wd row0 ht) (synthInfo W H) 14 8192 y =
     (let w = \<lparr> winX = col0, winY = row0, winWidth = wd, winHeight = ht \<rparr>
      in if outOfBounds (synthInfo W H) w then NoCoverage
         else if oversize (synthInfo W H) w then
           (case fixedWindow (synthInfo W H)
                   (Math_round (real_of_int col0 + real_of_int wd / 2),
                    Math_round (real_of_int row0 + real_of_int ht / 2)) of
              None \<Rightarrow> NoCoverage | Some fw \<Rightarrow> FixedFallback fw)
         else (case clampWindow (synthInfo W H) w of
                 None \<Rightarrow> NoCoverage | Some cw \<Rightarrow> Clamped cw))"
proof -
  have b: "\<bar>col0\<bar> < 2 ^ 51" "\<bar>wd\<bar> < 2 ^ 51" "\<bar>row0\<bar> < 2 ^ 51" "\<bar>ht\<bar> < 2 ^ 51"
    using assms by simp_all
  show ?thesis
    unfolding resolveWindow_def synth_cornerPixels [OF b] synth_centerPixel [OF b]
    by (simp add: synth_boundingWindow [OF assms(1,2)] Let_def)
qed

lemma synth_renderTile:
  assumes "validWindow (synthInfo W H) w"
  shows "renderTile (synthEnv W H col0 wd row0 ht) w = Some (Tile 256 256 [10, 20, 30])"
proof -
  have v: "0 \<le> winX w" "0 \<le> winY w" "0 < winWidth w" "0 < winHeight w"
    "winX w + winWidth w \<le> W" "winY w + winHeight w \<le> H"
    using assms by (simp_all add: validWindow_def synthInfo_def)
  have p: "0 < winWidth w * winHeight w"
    using v(3,4) by simp
  then obtain n where n: "nat (winWidth w * winHeight w) = Suc n"
    by (metis Suc_pred' zero_less_nat_eq)
  have i: "rgbInterleave (winWidth w) (winHeight w)
             (replicate (nat (winWidth w * winHeight w)) 10)
             (replicate (nat (winWidth w * winHeight w)) 20)
             (replicate (nat (winWidth w * winHeight w)) 30)
           = concat (replicate (nat (winWidth w * winHeight w)) [10, 20, 30])"
    using rgbInterleave_constant [of "winWidth w" "winHeight w" 10 20 30] p
    by (simp add: toUint8_def)
  have r: "synthRead W H i (winX w) (winY w) (winWidth w) (winHeight w)
           = Some (replicate (nat (winWidth w * winHeight w)) (10 * int i))" for i
    using v by (simp add: synthRead_def)
  show ?thesis
    unfolding renderTile_def synthEnv_def
    by (simp add: r i tileSize_def) (simp add: n)
qed

lemma synth_renderTile_refused:
  assumes "\<not> validWindow (synthInfo W H) w"
  shows "renderTile (synthEnv W H col0 wd row0 ht) w = None"
  using assms
  by (auto simp: renderTile_def synthEnv_def synthRead_def validWindow_def synthInfo_def)

lemma ex_clamped:
  "resolveWindow (synthEnv 1010 1010 900 200 400 200) (synthInfo 1010 1010) 14 8192 y
   = Clamped \<lparr> winX = 900, winY = 400, winWidth = 110, winHeight = 200 \<rparr>"
  by (simp add: synth_resolveWindow outOfBounds_def oversize_def Let_def)
     (simp add: synthInfo_def clampWindow_def Let_def)

lemma ex_fixed_ok:
  "resolveWindow (synthEnv 1010 1010 90 820 400 200) (synthInfo 1010 1010) 14 8192 y
   = FixedFallback \<lparr> winX = 450, winY = 450, winWidth = 101, winHeight = 101 \<rparr>"
  by (simp add: synth_resolveWindow outOfBounds_def oversize_def Let_def)
     (simp add: synthInfo_def fixedWindow_def Let_def Math_round_def)

lemma ex_fixed_none:
  "resolveWindow (synthEnv 1010 1010 600 2400 400 200) (synthInfo 1010 1010) 14 8192 y
   = NoCoverage"
  by (simp add: synth_resolveWindow outOfBounds_def oversize_def Let_def)
     (simp add: synthInfo_def fixedWindow_def Let_def Math_round_def)

lemma ex_fixed_1010:
  "resolveWindow (synthEnv 1010 1010 600 820 400 200) (synthInfo 1010 1010) 14 8192 y
   = FixedFallback \<lparr> winX = 960, winY = 450, winWidth = 51, winHeight = 101 \<rparr>"
  by (simp add: synth_resolveWindow outOfBounds_def oversize_def Let_def)
     (simp add: synthInfo_def fixedWindow_def Let_def Math_round_def)

lemma ex_fixed_1005:
  "resolveWindow (synthEnv 1005 1005 600 910 400 200) (synthInfo 1005 1005) 14 8192 y
   = FixedFallback \<lparr> winX = 1005, winY = 450, winWidth = 0, winHeight = 101 \<rparr>"
  by (simp add: synth_resolveWindow outOfBounds_def oversize_def Let_def)
     (simp add: synthInfo_def fixedWindow_def Let_def Math_round_def)

subsection \<open>The transforms and the candidate window\<close>

lemma tileToLatLon_spec:
  assumes "0 \<le> z"
  shows "tileToLatLon x y z = \<lparr> lon = specLon x z, lat = specLat y z \<rparr>"
  using Math_pow2_nat [OF assms]
  by (simp add: tileToLatLon_def Let_def specLon_def specLat_def sinh_field_def)

lemma projToPixel_doubles:
  "projToPixel info (px, py)
   = (round (toDouble (toDouble (px - originX info) / pixelWidth info)),
      round (toDouble (toDouble (py - originY info) / pixelHeight info)))"
  by (simp add: projToPixel_def Let_def Math_round_round)

lemma cornerPixels_spec:
  assumes "0 \<le> z"
  shows "cornerPixels e info z x y =
     (case proj4 e (specLon x z, specLat y z) of None \<Rightarrow> None | Some nwProj \<Rightarrow>
     (case proj4 e (specLon (x + 1) z, specLat y z) of None \<Rightarrow> None | Some neProj \<Rightarrow>
     (case proj4 e (specLon x z, specLat (y + 1) z) of None \<Rightarrow> None | Some swProj \<Rightarrow>
     (case proj4 e (specLon (x + 1) z, specLat (y + 1) z) of None \<Rightarrow> None | Some seProj \<Rightarrow>
        Some (projToPixel info nwProj, projToPixel info neProj,
              projToPixel info swProj, projToPixel info seProj)))))"
  by (simp add: cornerPixels_def Let_def tileToLatLon_spec [OF assms] cong: option.case_cong)

lemma boundingWindow_box:
  "boundingWindow nw ne sw se =
     \<lparr> winX = Min {fst nw, fst ne, fst sw, fst se},
       winY = Min {snd nw, snd ne, snd sw, snd se},
       winWidth = Max {fst nw, fst ne, fst sw, fst se} - Min {fst nw, fst ne, fst sw, fst se},
       winHeight = Max {snd nw, snd ne, snd sw, snd se} - Min {snd nw, snd ne, snd sw, snd se} \<rparr>"
  by (simp add: boundingWindow_def Let_def min4_Min max4_Max)

lemma resolveWindow_box:
  assumes "cornerPixels e info z x y = Some (nw, ne, sw, se)"
  shows "resolveWindow e info z x y =
     (let w = \<lparr> winX = Min {fst nw, fst ne, fst sw, fst se},
                 winY = Min {snd nw, snd ne, snd sw, snd se},
                 winWidth = Max {fst nw, fst ne, fst sw, fst se}
                            - Min {fst nw, fst ne, fst sw, fst se},
                 winHeight = Max {snd nw, snd ne, snd sw, snd se}
                            - Min {snd nw, snd ne, snd sw, snd se} \<rparr>
      in if outOfBounds info w then NoCoverage
         else if oversize info w then
           (if 14 \<le> z then
              (case centerPixel e info z x y of None \<Rightarrow> NoCoverage
               | Some c \<Rightarrow>
                   (case fixedWindow info c of None \<Rightarrow> NoCoverage
                    | Some fw \<Rightarrow> FixedFallback fw))
            else NoCoverage)
         else (case clampWindow info w of None \<Rightarrow> NoCoverage | Some cw \<Rightarrow> Clamped cw))"
  unfolding resolveWindow_def assms boundingWindow_box by simp

text \<open>
  C6, amended: for a zoom \<open>z \<ge> 0\<close> the corner of the tile has, in exact arithmetic,
  the longitude \<open>x / 2^z * 360 - 180\<close> and the latitude \<open>(180 / pi) * atan (sinh n)\<close>
  with \<open>n = pi - 2 * pi * y / 2^z\<close>. A projected point \<open>(px, py)\<close> goes to the column
  \<open>Math.round (qx)\<close> and the row \<open>Math.round (qy)\<close>, where \<open>qx\<close> is the quotient
  \<open>(px - originX) / pixelWidth\<close> as the doubles give it (the difference and the
  quotient each rounded to the nearest double) and \<open>qy\<close> likewise; these are
  \<open>round ((px - originX) / pixelWidth)\<close> and \<open>round ((py - originY) / pixelHeight)\<close>
  whenever the differences and the quotients are doubles themselves. The corner pixels
  are those of the reprojected corners of the tiles \<open>(x, y)\<close>, \<open>(x + 1, y)\<close>,
  \<open>(x, y + 1)\<close> and \<open>(x + 1, y + 1)\<close>, and the window that the resolver tests and
  clamps is the bounding box of these four pixels.
\<close>

theorem transforms_in_doubles:
  assumes "0 \<le> z"
  shows "tileToLatLon x y z = \<lparr> lon = specLon x z, lat = specLat y z \<rparr>
       \<and> projToPixel info (px, py)
           = (round (toDouble (toDouble (px - originX info) / pixelWidth info)),
              round (toDouble (toDouble (py - originY info) / pixelHeight info)))
       \<and> (toDouble (px - originX info) = px - originX info
          \<and> toDouble ((px - originX info) / pixelWidth info) = (px - originX info) / pixelWidth info
          \<and> toDouble (py - originY info) = py - originY info
          \<and> toDouble ((py - originY info) / pixelHeight info) = (py - originY info) / pixelHeight info
          \<longrightarrow> projToPixel info (px, py) = specPixel info (px, py))
       \<and> cornerPixels e info z x y =
           (case proj4 e (specLon x z, specLat y z) of None \<Rightarrow> None | Some nwProj \<Rightarrow>
           (case proj4 e (specLon (x + 1) z, specLat y z) of None \<Rightarrow> None | Some neProj \<Rightarrow>
           (case proj4 e (specLon x z, specLat (y + 1) z) of None \<Rightarrow> None | Some swProj \<Rightarrow>
           (case proj4 e (specLon (x + 1) z, specLat (y + 1) z) of None \<Rightarrow> None
            | Some seProj \<Rightarrow>
              Some (projToPixel info nwProj, projToPixel info neProj,
                    projToPixel info swProj, projToPixel info seProj)))))
       \<and> (\<forall>nw ne sw se. cornerPixels e info z x y = Some (nw, ne, sw, se) \<longrightarrow>
            resolveWindow e info z x y =
              (let w = \<lparr> winX = Min {fst nw, fst ne, fst sw, fst se},
                          winY = Min {snd nw, snd ne, snd sw, snd se},
                          winWidth = Max {fst nw, fst ne, fst sw, fst se}
                                     - Min {fst nw, fst ne, fst sw, fst se},
                          winHeight = Max {snd nw, snd ne, snd sw, snd se}
                                     - Min {snd nw, snd ne, snd sw, snd se} \<rparr>
               in if outOfBounds info w then NoCoverage
                  else if oversize info w then
                    (if 14 \<le> z then
                       (case centerPixel e info z x y of None \<Rightarrow> NoCoverage
                        | Some c \<Rightarrow>
                            (case fixedWindow info c of None \<Rightarrow> NoCoverage
                             | Some fw \<Rightarrow> FixedFallback fw))
                     else NoCoverage)
                  else (case clampWindow info w of None \<Rightarrow> NoCoverage
                        | Some cw \<Rightarrow> Clamped cw)))"
proof -
  have exact: "projToPixel info (px, py) = specPixel info (px, py)"
    if "toDouble (px - originX info) = px - originX info"
      "toDouble ((px - originX info) / pixelWidth info) = (px - originX info) / pixelWidth info"
      "toDouble (py - originY info) = py - originY info"
      "toDouble ((py - originY info) / pixelHeight info) = (py - originY info) / pixelHeight info"
    unfolding projToPixel_doubles specPixel_def by (simp add: that)
  show ?thesis
    using tileToLatLon_spec [OF assms, of x y] projToPixel_doubles [of info px py] exact
      cornerPixels_spec [OF assms, of e info x y] resolveWindow_box [of e info z x y]
    by blast
qed

lemma tenth_projToPixel: "projToPixel tenthInfo (1 / 4, - 1 / 4) = (3, 3)"
proof -
  have q: "toDouble (1 / 4) = 1 / 4" "toDouble (- (1 / 4)) = - (1 / 4)"
    using toDouble_dyadic [of 1 2] toDouble_dyadic [of "- 1" 2] by simp_all
  have d: "(1 / 4) / (3602879701896397 / 36028797018963968 :: real)
           = 9007199254740992 / 3602879701896397"
    by simp
  have t: "toDouble (9007199254740992 / 3602879701896397) = 5 / 2"
    using toDouble_quarter_by_tenth unfolding d .
  show ?thesis
    by (simp add: projToPixel_def tenthInfo_def Let_def q t Math_round_def)
qed

text \<open>
  C6, as stated, fails: with the pixel size \<^verbatim>\<open>0.1\<close> and the origin 0, the point
  \<open>(0.25, -0.25)\<close> goes to the pixel \<open>(3, 3)\<close>, because the doubles give the quotient
  2.5, while the exact quotient is less than 2.5 and rounds to 2.
\<close>

theorem pixel_rounding_counterexample:
  "projToPixel tenthInfo (1 / 4, - 1 / 4) = (3, 3)
   \<and> (round ((1 / 4 - originX tenthInfo) / pixelWidth tenthInfo),
      round ((- 1 / 4 - originY tenthInfo) / pixelHeight tenthInfo)) = (2, 2)"
proof -
  have r: "round (9007199254740992 / 3602879701896397 :: real) = 2"
    by (simp add: round_def)
  have "(round ((1 / 4 - originX tenthInfo) / pixelWidth tenthInfo),
      round ((- 1 / 4 - originY tenthInfo) / pixelHeight tenthInfo)) = (2, 2)"
    by (simp add: tenthInfo_def r)
  then show ?thesis
    using tenth_projToPixel by blast
qed

theorem transforms_in_doubles_witness:
  "(0 :: int) \<le> 14
   \<and> lon (tileToLatLon 8192 3 14) = 0
   \<and> projToPixel (synthInfo 100 100) (5 / 2, - 7 / 4) = (3, 2)
   \<and> cornerPixels (synthEnv 100 100 95 10 0 10) (synthInfo 100 100) 14 8192 3
       = Some ((95, 0), (105, 10), (95, 0), (105, 10))
   \<and> resolveWindow (synthEnv 100 100 95 10 0 10) (synthInfo 100 100) 14 8192 3
       = Clamped \<lparr> winX = 95, winY = 0, winWidth = 5, winHeight = 10 \<rparr>"
proof -
  let ?e = "synthEnv 100 100 95 10 0 10"
  let ?i = "synthInfo 100 100"
  have z: "(0 :: int) \<le> 14" by simp
  have r: "round (5 / 2 :: real) = 3" "round (7 / 4 :: real) = 2"
    by (simp_all add: round_def)
  have q: "toDouble (5 / 2 - originX ?i) = 5 / 2 - originX ?i"
    "toDouble ((5 / 2 - originX ?i) / pixelWidth ?i) = (5 / 2 - originX ?i) / pixelWidth ?i"
    "toDouble (- 7 / 4 - originY ?i) = - 7 / 4 - originY ?i"
    "toDouble ((- 7 / 4 - originY ?i) / pixelHeight ?i) = (- 7 / 4 - originY ?i) / pixelHeight ?i"
    using toDouble_dyadic [of 5 1] toDouble_dyadic [of "- 7" 2] toDouble_dyadic [of 7 2]
    by (simp_all add: synthInfo_def)
  have c: "cornerPixels ?e ?i 14 8192 3 = Some ((95, 0), (105, 10), (95, 0), (105, 10))"
    using synth_cornerPixels [of 95 10 0 10 100 100 3] by simp
  note t = transforms_in_doubles [OF z, of 8192 3 ?i "5 / 2" "- 7 / 4" ?e]
  have t1: "tileToLatLon 8192 3 14 = \<lparr> lon = specLon 8192 14, lat = specLat 3 14 \<rparr>"
    using t by blast
  have t3: "projToPixel ?i (5 / 2, - 7 / 4) = specPixel ?i (5 / 2, - 7 / 4)"
    using t q by blast
  have t5: "resolveWindow ?e ?i 14 8192 3 =
              (let w = \<lparr> winX = Min {95, 105, 95, 105}, winY = Min {0, 10, 0, 10},
                          winWidth = Max {95, 105, 95, 105} - Min {95, 105, 95, 105},
                          winHeight = Max {0, 10, 0, 10} - Min {0, 10, 0, 10} \<rparr>
               in if outOfBounds ?i w then NoCoverage
                  else if oversize ?i w then
                    (if (14 :: int) \<le> 14 then
                       (case centerPixel ?e ?i 14 8192 3 of None \<Rightarrow> NoCoverage
                        | Some c \<Rightarrow>
                            (case fixedWindow ?i c of None \<Rightarrow> NoCoverage
                             | Some fw \<Rightarrow> FixedFallback fw))
                     else NoCoverage)
                  else (case clampWindow ?i w of None \<Rightarrow> NoCoverage
                        | Some cw \<Rightarrow> Clamped cw))"
    using t c by simp
  have m: "Min {95, 105, 95, 105 :: int} = 95" "Max {95, 105, 95, 105 :: int} = 105"
    "Min {0, 10, 0, 10 :: int} = 0" "Max {0, 10, 0, 10 :: int} = 10"
    by simp_all
  have l: "lon (tileToLatLon 8192 3 14) = 0"
    unfolding t1 by (simp add: specLon_def)
  have p: "projToPixel ?i (5 / 2, - 7 / 4) = (3, 2)"
    unfolding t3 by (simp add: specPixel_def synthInfo_def r)
  have w: "resolveWindow ?e ?i 14 8192 3
           = Clamped \<lparr> winX = 95, winY = 0, winWidth = 5, winHeight = 10 \<rparr>"
    unfolding t5 m
    by (simp add: outOfBounds_def oversize_def clampWindow_def Let_def synthInfo_def)
  show ?thesis
    using z l p c w by blast
qed

subsection \<open>The window resolver\<close>

lemma outOfBounds_iff:
  "outOfBounds info w \<longleftrightarrow>
     \<not> insideRaster info (winX w, winY w) \<or> winWidth w \<le> 0 \<or> winHeight w \<le> 0"
  by (auto simp: outOfBounds_def insideRaster_def)

lemma resolveWindow_outOfBounds:
  assumes "cornerPixels e info z x y = Some (nwPixel, nePixel, swPixel, sePixel)"
    and "outOfBounds info (boundingWindow nwPixel nePixel swPixel sePixel)"
  shows "resolveWindow e info z x y = NoCoverage"
  using assms by (simp add: resolveWindow_def)

lemma resolveWindow_projection_fails:
  "cornerPixels e info z x y = None \<Longrightarrow> resolveWindow e info z x y = NoCoverage"
  by (simp add: resolveWindow_def)

lemma clampWindow_inside:
  assumes "\<not> outOfBounds info w"
  shows "clampWindow info w
         = Some \<lparr> winX = winX w, winY = winY w,
                  winWidth = min (width info - winX w) (winWidth w),
                  winHeight = min (height info - winY w) (winHeight w) \<rparr>"
  using assms by (simp add: clampWindow_def outOfBounds_def Let_def not_le not_less max_def)

lemma clampWindow_valid:
  assumes "\<not> outOfBounds info w" and "clampWindow info w = Some cw"
  shows "validWindow info cw"
  using assms unfolding clampWindow_inside [OF assms(1)]
  by (auto simp: validWindow_def outOfBounds_def not_le not_less)

lemma resolveWindow_Clamped_valid:
  assumes "resolveWindow e info z x y = Clamped cw"
  shows "validWindow info cw"
proof -
  from assms obtain nwPixel nePixel swPixel sePixel where
    c: "cornerPixels e info z x y = Some (nwPixel, nePixel, swPixel, sePixel)"
    by (auto simp: resolveWindow_def split: option.splits)
  let ?w = "boundingWindow nwPixel nePixel swPixel sePixel"
  from assms c have o: "\<not> outOfBounds info ?w" and k: "clampWindow info ?w = Some cw"
    by (auto simp: resolveWindow_def Let_def split: option.splits if_splits)
  then show ?thesis by (rule clampWindow_valid)
qed

lemma fixedWindow_unfold:
  "fixedWindow info (cx, cy) =
     (let fixedSize = real_of_int (min (width info) (height info)) / 10;
          fx = max 0 (real_of_int cx - fixedSize / 2);
          fy = max 0 (real_of_int cy - fixedSize / 2);
          fw = min (real_of_int (width info) - fx) fixedSize;
          fh = min (real_of_int (height info) - fy) fixedSize
      in if fw \<le> 0 \<or> fh \<le> 0 then None
         else Some \<lparr> winX = round fx, winY = round fy,
                      winWidth = round fw, winHeight = round fh \<rparr>)"
  by (simp add: fixedWindow_def Let_def Math_round_round)

text \<open>
  C1, as stated, fails: on a raster of 100 by 100 pixels the window at \<open>x = -5\<close>,
  \<open>y = 0\<close> of 10 by 10 pixels overlaps the raster (\<open>x + width > 0\<close>) and has a
  positive size, and the test of line 245 sends the empty tile for it.
\<close>

theorem outOfBounds_counterexample:
  "outOfBounds (synthInfo 100 100) \<lparr> winX = - 5, winY = 0, winWidth = 10, winHeight = 10 \<rparr>
   \<and> - 5 + (10 :: int) > 0
   \<and> \<not> liesEntirelyOutside (synthInfo 100 100)
         \<lparr> winX = - 5, winY = 0, winWidth = 10, winHeight = 10 \<rparr>
   \<and> resolveWindow (synthEnv 100 100 (- 5) 10 0 10) (synthInfo 100 100) 14 8192 0
       = NoCoverage"
  by (simp add: synth_resolveWindow)
     (simp add: outOfBounds_def liesEntirelyOutside_def synthInfo_def)

text \<open>
  C1, amended: the test of lines 245 and 246 reports NoCoverage exactly when the top
  left pixel \<open>(x, y)\<close> of the bounding window is not a pixel of the raster, or the
  width or the height is not positive. A window that lies entirely outside the raster,
  or has no positive size, is rejected; so is one with \<open>x < 0\<close> or \<open>y < 0\<close> that
  overlaps the raster. A window that passes and is not oversize goes on to clamping,
  which cuts it at the right and bottom edges.
\<close>

theorem outOfBounds_topLeft:
  assumes "cornerPixels e info z x y = Some (nwPixel, nePixel, swPixel, sePixel)"
    and "w = boundingWindow nwPixel nePixel swPixel sePixel"
  shows "(outOfBounds info w \<longleftrightarrow>
            \<not> insideRaster info (winX w, winY w) \<or> winWidth w \<le> 0 \<or> winHeight w \<le> 0)
       \<and> (liesEntirelyOutside info w \<or> winWidth w \<le> 0 \<or> winHeight w \<le> 0
            \<longrightarrow> outOfBounds info w)
       \<and> (outOfBounds info w \<longrightarrow> resolveWindow e info z x y = NoCoverage)
       \<and> (\<not> outOfBounds info w \<and> \<not> oversize info w \<longrightarrow>
            resolveWindow e info z x y
            = Clamped \<lparr> winX = winX w, winY = winY w,
                        winWidth = min (width info - winX w) (winWidth w),
                        winHeight = min (height info - winY w) (winHeight w) \<rparr>)"
proof -
  have a: "liesEntirelyOutside info w \<or> winWidth w \<le> 0 \<or> winHeight w \<le> 0
            \<longrightarrow> outOfBounds info w"
    by (auto simp: liesEntirelyOutside_def outOfBounds_def)
  have b: "outOfBounds info w \<longrightarrow> resolveWindow e info z x y = NoCoverage"
    using assms by (simp add: resolveWindow_outOfBounds)
  have c: "\<not> outOfBounds info w \<and> \<not> oversize info w \<longrightarrow>
            resolveWindow e info z x y
            = Clamped \<lparr> winX = winX w, winY = winY w,
                        winWidth = min (width info - winX w) (winWidth w),
                        winHeight = min (height info - winY w) (winHeight w) \<rparr>"
    using assms by (auto simp: resolveWindow_def clampWindow_inside Let_def)
  show ?thesis
    using a b c outOfBounds_iff [of info w] by blast
qed

theorem outOfBounds_topLeft_witness:
  "resolveWindow (synthEnv 100 100 (- 5) 10 0 10) (synthInfo 100 100) 14 8192 3 = NoCoverage
   \<and> resolveWindow (synthEnv 100 100 95 10 0 10) (synthInfo 100 100) 14 8192 3
       = Clamped \<lparr> winX = 95, winY = 0, winWidth = 5, winHeight = 10 \<rparr>"
proof -
  have c1: "cornerPixels (synthEnv 100 100 (- 5) 10 0 10) (synthInfo 100 100) 14 8192 3
     = Some ((- 5, 0), (- 5 + 10, 0 + 10), (- 5, 0), (- 5 + 10, 0 + 10))"
    by (rule synth_cornerPixels) simp_all
  have w1: "\<lparr> winX = - 5, winY = 0, winWidth = 10, winHeight = 10 \<rparr>
     = boundingWindow (- 5, 0) (- 5 + 10, 0 + 10) (- 5, 0) (- 5 + 10, 0 + 10)"
    by (simp add: boundingWindow_def Let_def Math_min4_def Math_max4_def)
  have o1: "outOfBounds (synthInfo 100 100)
              \<lparr> winX = - 5, winY = 0, winWidth = 10, winHeight = 10 \<rparr>"
    by (simp add: outOfBounds_def)
  have c2: "cornerPixels (synthEnv 100 100 95 10 0 10) (synthInfo 100 100) 14 8192 3
     = Some ((95, 0), (95 + 10, 0 + 10), (95, 0), (95 + 10, 0 + 10))"
    by (rule synth_cornerPixels) simp_all
  have w2: "\<lparr> winX = 95, winY = 0, winWidth = 10, winHeight = 10 \<rparr>
     = boundingWindow (95, 0) (95 + 10, 0 + 10) (95, 0) (95 + 10, 0 + 10)"
    by (simp add: boundingWindow_def Let_def Math_min4_def Math_max4_def)
  have o2: "\<not> outOfBounds (synthInfo 100 100)
              \<lparr> winX = 95, winY = 0, winWidth = 10, winHeight = 10 \<rparr>
          \<and> \<not> oversize (synthInfo 100 100)
              \<lparr> winX = 95, winY = 0, winWidth = 10, winHeight = 10 \<rparr>"
    by (simp add: outOfBounds_def oversize_def synthInfo_def)
  show ?thesis
    using outOfBounds_topLeft [OF c1 w1] outOfBounds_topLeft [OF c2 w2] o1 o2
    by (simp add: synthInfo_def)
qed

text \<open>
  C4 on the path of the fixed window. The test of line 287 reads the fractional width
  and height, and the lines 292 to 295 round afterwards. On a raster of 1010 by 1010
  pixels with the centre at the column 1010 the window handed to the band reader starts
  at the column 960 and is 51 pixels wide: one column past the raster. On a raster of
  1005 by 1005 pixels with the centre at the column 1055 it has the width 0. (On the
  normal path the window is valid: \<open>resolveWindow_Clamped_valid\<close>.)
\<close>

theorem fallback_window_invalid:
  "resolveWindow (synthEnv 1010 1010 600 820 400 200) (synthInfo 1010 1010) 14 8192 0
     = FixedFallback \<lparr> winX = 960, winY = 450, winWidth = 51, winHeight = 101 \<rparr>
   \<and> \<not> validWindow (synthInfo 1010 1010)
         \<lparr> winX = 960, winY = 450, winWidth = 51, winHeight = 101 \<rparr>
   \<and> resolveWindow (synthEnv 1005 1005 600 910 400 200) (synthInfo 1005 1005) 14 8192 0
     = FixedFallback \<lparr> winX = 1005, winY = 450, winWidth = 0, winHeight = 101 \<rparr>
   \<and> \<not> validWindow (synthInfo 1005 1005)
         \<lparr> winX = 1005, winY = 450, winWidth = 0, winHeight = 101 \<rparr>"
proof -
  have wide: "\<not> validWindow (synthInfo 1010 1010)
         \<lparr> winX = 960, winY = 450, winWidth = 51, winHeight = 101 \<rparr>"
  proof
    assume "validWindow (synthInfo 1010 1010)
         \<lparr> winX = 960, winY = 450, winWidth = 51, winHeight = 101 \<rparr>"
    then have "(960 :: int) + 51 \<le> 1010"
      by (simp add: validWindow_def synthInfo_def)
    then show False by simp
  qed
  have flat: "\<not> validWindow (synthInfo 1005 1005)
         \<lparr> winX = 1005, winY = 450, winWidth = 0, winHeight = 101 \<rparr>"
  proof
    assume "validWindow (synthInfo 1005 1005)
         \<lparr> winX = 1005, winY = 450, winWidth = 0, winHeight = 101 \<rparr>"
    then have "(0 :: int) < 0"
      by (simp add: validWindow_def)
    then show False by simp
  qed
  show ?thesis
    using wide flat by (simp add: ex_fixed_1010 ex_fixed_1005)
qed

subsection \<open>The cache\<close>

lemma mapHas_keys: "mapHas m k \<longleftrightarrow> k \<in> fst ` set m"
  by (simp add: mapHas_def map_of_eq_None_iff)

lemma mapSet_absent: "\<not> mapHas m k \<Longrightarrow> mapSet k v m = m @ [(k, v)]"
  by (induction m) (auto simp: mapHas_keys)

lemma mapGet_mapSet: "mapGet (mapSet k v m) k = Some v"
  by (induction m) (auto simp: mapGet_def)

lemma mapHas_mapSet: "mapHas (mapSet k v m) k' \<longleftrightarrow> k' = k \<or> mapHas m k'"
  by (induction m) (auto simp: mapHas_keys)

lemma mapSize_mapSet_absent: "\<not> mapHas m k \<Longrightarrow> mapSize (mapSet k v m) = mapSize m + 1"
  by (simp add: mapSet_absent mapSize_def)

lemma mapGet_mapDelete: "k \<noteq> a \<Longrightarrow> mapGet (mapDelete a m) k = mapGet m k"
  by (induction m) (auto simp: mapGet_def mapDelete_def)

lemma mapSize_mapDelete_first: "mapSize (mapDelete (fst p) (p # ps)) \<le> mapSize ps"
  by (simp add: mapSize_def mapDelete_def)

lemma limitCache_bound: "mapSize m \<le> 1001 \<Longrightarrow> mapSize (limitCache m) \<le> 1000"
proof (cases m)
  case Nil
  then show ?thesis by (simp add: limitCache_def mapSize_def)
next
  case (Cons p ps)
  assume "mapSize m \<le> 1001"
  then have "mapSize ps \<le> 1000"
    using Cons by (simp add: mapSize_def)
  then show ?thesis
    using Cons mapSize_mapDelete_first [of p ps]
    by (auto simp: limitCache_def)
qed

text \<open>The entry that the lines 419 and 420 delete is the oldest one.\<close>

lemma limitCache_oldest:
  assumes "distinct (map fst m)" and "mapSize m > 1000"
  shows "limitCache m = tl m"
proof (cases m)
  case Nil
  with assms(2) show ?thesis by (simp add: mapSize_def)
next
  case (Cons p ps)
  with assms(1) have "fst p \<notin> fst ` set ps"
    by simp
  then have "\<forall>q \<in> set ps. fst q \<noteq> fst p"
    by (metis imageI)
  then have "filter (\<lambda>q. fst q \<noteq> fst p) ps = ps"
    by (simp add: filter_id_conv)
  with Cons assms(2) show ?thesis
    by (simp add: limitCache_def mapDelete_def)
qed

lemma mapGet_limitCache_mapSet:
  assumes "\<not> mapHas m k"
  shows "mapGet (limitCache (mapSet k v m)) k = Some v"
proof (cases m)
  case Nil
  then show ?thesis
    by (simp add: limitCache_def mapSize_def mapGet_def)
next
  case (Cons p ps)
  with assms have ne: "k \<noteq> fst p"
    by (auto simp: mapHas_keys)
  have s: "mapSet k v m = p # mapSet k v ps"
    using Cons ne by auto
  have g: "mapGet (mapSet k v m) k = Some v"
    by (rule mapGet_mapSet)
  show ?thesis
    using g mapGet_mapDelete [OF ne, of "mapSet k v m"]
    by (simp add: limitCache_def s)
qed

subsection \<open>The handler\<close>

lemma header_simps:
  "header ''X-Cache'' sendEmptyTile = None"
  "header ''X-Cache'' (sendCached t) = Some ''HIT''"
  "header ''X-Cache'' (sendTile t) = Some ''MISS''"
  "header ''Content-Type'' sendEmptyTile = Some ''image/png''"
  "header ''Content-Type'' (sendCached t) = Some ''image/png''"
  "header ''Content-Type'' (sendTile t) = Some ''image/png''"
  by (simp_all add: header_def sendEmptyTile_def sendCached_def sendTile_def)

lemma status_simps:
  "statusCode sendEmptyTile = 200" "statusCode (sendCached t) = 200"
  "statusCode (sendTile t) = 200"
  by (simp_all add: sendEmptyTile_def sendCached_def sendTile_def)

lemma body_simps:
  "body sendEmptyTile = Blank tileSize tileSize 4 (255, 255, 255, 0)"
  "body (sendCached t) = t" "body (sendTile t) = t"
  by (simp_all add: sendEmptyTile_def sendCached_def sendTile_def)

text \<open>The three ways a request ends.\<close>

lemma handleTile_cases:
  "(handleTile e m k = (sendEmptyTile, m))
   \<or> (\<exists>t. mapGet m k = Some t \<and> handleTile e m k = (sendCached t, m))
   \<or> (\<exists>t. \<not> mapHas m k \<and>
          (handleTile e m k = (sendTile t, mapSet k t m)
           \<or> handleTile e m k = (sendTile t, limitCache (mapSet k t m))))"
  by (cases k)
     (auto simp: handleTile_def Let_def mapHas_def mapGet_def
        split: option.splits resolution.splits)

lemma handleTile_hit:
  assumes "dataset e = Some info" and "mapGet m k = Some t"
  shows "handleTile e m k = (sendCached t, m)"
  using assms by (cases k) (simp add: handleTile_def Let_def mapHas_def mapGet_def)

lemma handleTile_miss:
  assumes "dataset e = Some info" and "\<not> mapHas m (z, x, y)"
  shows "handleTile e m (z, x, y) =
     (case resolveWindow e info z x y of
        NoCoverage \<Rightarrow> (sendEmptyTile, m)
      | FixedFallback w \<Rightarrow>
          (case renderTile e w of None \<Rightarrow> (sendEmptyTile, m)
           | Some tileBuffer \<Rightarrow> (sendTile tileBuffer, mapSet (z, x, y) tileBuffer m))
      | Clamped w \<Rightarrow>
          (case renderTile e w of None \<Rightarrow> (sendEmptyTile, m)
           | Some tileBuffer \<Rightarrow>
               (sendTile tileBuffer, limitCache (mapSet (z, x, y) tileBuffer m))))"
  using assms by (simp add: handleTile_def Let_def)

lemma handleTile_no_dataset:
  "dataset e = None \<Longrightarrow> handleTile e m k = (sendEmptyTile, m)"
  by (cases k) (simp add: handleTile_def)

lemma sendEmptyTile_distinct:
  "sendEmptyTile \<noteq> sendCached t" "sendEmptyTile \<noteq> sendTile t"
  by (auto simp: sendEmptyTile_def sendCached_def sendTile_def)

lemma renderTile_size:
  "renderTile e w = Some img \<Longrightarrow> imageWidth img = 256 \<and> imageHeight img = 256"
  by (auto simp: renderTile_def tileSize_def split: option.splits)

lemma renderTile_read_fails:
  "pixelsRead e 1 (winX w) (winY w) (winWidth w) (winHeight w) = None
   \<or> pixelsRead e 2 (winX w) (winY w) (winWidth w) (winHeight w) = None
   \<or> pixelsRead e 3 (winX w) (winY w) (winWidth w) (winHeight w) = None
   \<Longrightarrow> renderTile e w = None"
  by (auto simp: renderTile_def split: option.splits)

lemma synth_handle_fallback:
  assumes "\<not> mapHas m (14, 8192, y)"
  shows "handleTile (synthEnv 1010 1010 90 820 400 200) m (14, 8192, y)
         = (sendTile (Tile 256 256 [10, 20, 30]),
            mapSet (14, 8192, y) (Tile 256 256 [10, 20, 30]) m)"
proof -
  have v: "validWindow (synthInfo 1010 1010)
             \<lparr> winX = 450, winY = 450, winWidth = 101, winHeight = 101 \<rparr>"
    by (simp add: validWindow_def synthInfo_def)
  show ?thesis
    using handleTile_miss [OF synth_dataset assms]
    by (simp add: ex_fixed_ok synth_renderTile [OF v])
qed

lemma synth_handle_clamped:
  assumes "\<not> mapHas m (14, 8192, y)"
  shows "handleTile (synthEnv 1010 1010 900 200 400 200) m (14, 8192, y)
         = (sendTile (Tile 256 256 [10, 20, 30]),
            limitCache (mapSet (14, 8192, y) (Tile 256 256 [10, 20, 30]) m))"
proof -
  have v: "validWindow (synthInfo 1010 1010)
             \<lparr> winX = 900, winY = 400, winWidth = 110, winHeight = 200 \<rparr>"
    by (simp add: validWindow_def synthInfo_def)
  show ?thesis
    using handleTile_miss [OF synth_dataset assms]
    by (simp add: ex_clamped synth_renderTile [OF v])
qed

lemma synth_handle_outside:
  assumes "\<not> mapHas m (14, 8192, y)"
  shows "handleTile (synthEnv 100 100 (- 5) 10 0 10) m (14, 8192, y) = (sendEmptyTile, m)"
proof -
  have "resolveWindow (synthEnv 100 100 (- 5) 10 0 10) (synthInfo 100 100) 14 8192 y
        = NoCoverage"
    by (simp add: synth_resolveWindow outOfBounds_def Let_def)
  then show ?thesis
    using handleTile_miss [OF synth_dataset assms] by simp
qed

subsection \<open>What the client receives\<close>

lemma fresh_unconditional: "ifNoneMatch req = None \<Longrightarrow> \<not> fresh req etag"
  by (auto simp: fresh_def)

lemma res_send_200:
  assumes "statusCode res = 200"
  shows "res_send etagFn req res =
     (if fresh req (etagFn (body res))
      then \<lparr> replyStatus = 304,
             replyHeaders = filter (\<lambda>h. fst h \<noteq> ''Content-Type'')
                              (headers res @ [(''ETag'', etagFn (body res))]),
             replyBody = None \<rparr>
      else \<lparr> replyStatus = 200,
             replyHeaders = headers res @ [(''ETag'', etagFn (body res))],
             replyBody = Some (body res) \<rparr>)"
  using assms by (simp add: res_send_def Let_def)

lemma handleTile_status: "statusCode (fst (handleTile e m k)) = 200"
  using handleTile_cases [of e m k] by (auto simp: status_simps)

lemma handleTile_content_type:
  "map_of (headers (fst (handleTile e m k))) ''Content-Type'' = Some ''image/png''"
  using handleTile_cases [of e m k] header_simps(4-6) by (auto simp: header_def)

lemma map_of_filter_other:
  "a \<noteq> b \<Longrightarrow> map_of (filter (\<lambda>h. fst h \<noteq> b) hs) a = map_of hs a"
  by (induction hs) auto

lemma map_of_filter_same: "map_of (filter (\<lambda>h. fst h \<noteq> b) hs) b = None"
  by (induction hs) auto

text \<open>\<^verbatim>\<open>res.send\<close> leaves the header \<^verbatim>\<open>X-Cache\<close> as the handler set it.\<close>

lemma res_send_X_Cache:
  assumes "statusCode res = 200"
  shows "replyHeader ''X-Cache'' (res_send etagFn req res) = header ''X-Cache'' res"
  by (simp add: res_send_200 [OF assms] replyHeader_def header_def map_of_filter_other
      map_add_def split: option.splits)

lemma tileEndpoint_unfold:
  "tileEndpoint etagFn e req m k
   = (res_send etagFn req (fst (handleTile e m k)), snd (handleTile e m k))"
  by (simp add: tileEndpoint_def split: prod.splits)


lemma res_send_Content_Type:
  assumes "statusCode res = 200"
  shows "replyHeader ''Content-Type'' (res_send etagFn req res)
         = (if fresh req (etagFn (body res)) then None else header ''Content-Type'' res)"
  by (simp add: res_send_200 [OF assms] replyHeader_def header_def map_of_filter_same
      map_add_def split: option.splits)

text \<open>
  C5, amended: every response of the endpoint to a \<^verbatim>\<open>GET\<close> has the status 200, the
  content type \<open>image/png\<close> and the image as its body, unless the request is fresh for
  Express (an \<^verbatim>\<open>If-None-Match\<close> that matches the tag of the image, no
  \<^verbatim>\<open>no-cache\<close>, no \<^verbatim>\<open>If-Modified-Since\<close>): then it has the status 304, no
  body and no content type. A request without \<^verbatim>\<open>If-None-Match\<close> is never fresh.
  The status is never 400 or more, and the cache is the one the handler leaves. Where
  the dataset is missing, a projection fails, the resolver reports NoCoverage, or a band
  read or the codec fails, the image that the handler sends is the empty tile: a fully
  transparent image of 256 by 256 pixels.
\<close>

theorem status_200_or_304:
  "(fresh req (etagFn (body (fst (handleTile e m k)))) \<longrightarrow>
      replyStatus (fst (tileEndpoint etagFn e req m k)) = 304
    \<and> replyBody (fst (tileEndpoint etagFn e req m k)) = None
    \<and> replyHeader ''Content-Type'' (fst (tileEndpoint etagFn e req m k)) = None)
   \<and> (\<not> fresh req (etagFn (body (fst (handleTile e m k)))) \<longrightarrow>
      replyStatus (fst (tileEndpoint etagFn e req m k)) = 200
    \<and> replyBody (fst (tileEndpoint etagFn e req m k)) = Some (body (fst (handleTile e m k)))
    \<and> replyHeader ''Content-Type'' (fst (tileEndpoint etagFn e req m k))
        = Some ''image/png'')
   \<and> (ifNoneMatch req = None \<longrightarrow> \<not> fresh req (etagFn (body (fst (handleTile e m k)))))
   \<and> replyStatus (fst (tileEndpoint etagFn e req m k)) < 400
   \<and> snd (tileEndpoint etagFn e req m k) = snd (handleTile e m k)
   \<and> fullyTransparent (body sendEmptyTile)
   \<and> imageWidth (body sendEmptyTile) = 256
   \<and> imageHeight (body sendEmptyTile) = 256
   \<and> (dataset e = None \<longrightarrow> handleTile e m k = (sendEmptyTile, m))
   \<and> (\<forall>info z x y.
         k = (z, x, y) \<and> dataset e = Some info \<and> \<not> mapHas m k \<longrightarrow>
           (cornerPixels e info z x y = None \<longrightarrow> resolveWindow e info z x y = NoCoverage)
         \<and> (resolveWindow e info z x y = NoCoverage \<longrightarrow>
               handleTile e m k = (sendEmptyTile, m))
         \<and> (\<forall>w. (resolveWindow e info z x y = Clamped w
                   \<or> resolveWindow e info z x y = FixedFallback w)
                 \<and> renderTile e w = None \<longrightarrow>
               handleTile e m k = (sendEmptyTile, m)))
   \<and> (\<forall>w. pixelsRead e 1 (winX w) (winY w) (winWidth w) (winHeight w) = None
           \<or> pixelsRead e 2 (winX w) (winY w) (winWidth w) (winHeight w) = None
           \<or> pixelsRead e 3 (winX w) (winY w) (winWidth w) (winHeight w) = None
          \<longrightarrow> renderTile e w = None)"
proof -
  let ?res = "fst (handleTile e m k)"
  let ?r = "fst (tileEndpoint etagFn e req m k)"
  have s: "statusCode ?res = 200"
    by (rule handleTile_status)
  have r: "?r = res_send etagFn req ?res"
    by (simp add: tileEndpoint_unfold)
  have ct: "header ''Content-Type'' ?res = Some ''image/png''"
    using handleTile_content_type [of e m k] by (simp add: header_def)
  have a: "replyStatus ?r = 304 \<and> replyBody ?r = None \<and> replyHeader ''Content-Type'' ?r = None"
    if "fresh req (etagFn (body ?res))"
    unfolding r using that res_send_Content_Type [OF s, of etagFn req]
    by (simp add: res_send_200 [OF s])
  have b: "replyStatus ?r = 200 \<and> replyBody ?r = Some (body ?res)
           \<and> replyHeader ''Content-Type'' ?r = Some ''image/png''"
    if "\<not> fresh req (etagFn (body ?res))"
    unfolding r using that res_send_Content_Type [OF s, of etagFn req] ct
    by (simp add: res_send_200 [OF s])
  have lt: "replyStatus ?r < 400"
    using a b by (cases "fresh req (etagFn (body ?res))") simp_all
  have sn: "snd (tileEndpoint etagFn e req m k) = snd (handleTile e m k)"
    by (simp add: tileEndpoint_unfold)
  have c: "fullyTransparent (body sendEmptyTile)" "imageWidth (body sendEmptyTile) = 256"
    "imageHeight (body sendEmptyTile) = 256"
    by (simp_all add: body_simps tileSize_def)
  have d: "handleTile e m k = (sendEmptyTile, m)"
    if "k = (z, x, y)" "dataset e = Some info" "\<not> mapHas m k"
      "resolveWindow e info z x y = NoCoverage" for info z x y
    using that handleTile_miss [of e info m z x y] by simp
  have f: "handleTile e m k = (sendEmptyTile, m)"
    if "k = (z, x, y)" "dataset e = Some info" "\<not> mapHas m k"
      "resolveWindow e info z x y = Clamped w \<or> resolveWindow e info z x y = FixedFallback w"
      "renderTile e w = None" for info z x y w
    using that handleTile_miss [of e info m z x y] by auto
  have g: "ifNoneMatch req = None \<longrightarrow> \<not> fresh req (etagFn (body ?res))"
    by (simp add: fresh_unconditional)
  show ?thesis
    using a b g lt sn c d f handleTile_no_dataset [of e m k] renderTile_read_fails [of e]
      resolveWindow_projection_fails [of e]
    by blast
qed

lemma synth_outside_reply:
  "handleTile (synthEnv 100 100 (- 5) 10 0 10) [] (14, 8192, 0) = (sendEmptyTile, [])"
  by (rule synth_handle_outside) (simp add: mapHas_def)

text \<open>
  C5, as stated, fails: a request for an uncovered tile that carries the tag of the
  empty tile in \<^verbatim>\<open>If-None-Match\<close> is answered with the status 304, without a body
  and without a content type.
\<close>

theorem conditional_get_counterexample:
  "replyStatus (fst (tileEndpoint synthETag (synthEnv 100 100 (- 5) 10 0 10)
                       (revalidate ''W/blank'') [] (14, 8192, 0))) = 304
   \<and> replyBody (fst (tileEndpoint synthETag (synthEnv 100 100 (- 5) 10 0 10)
                       (revalidate ''W/blank'') [] (14, 8192, 0))) = None
   \<and> replyHeader ''Content-Type''
        (fst (tileEndpoint synthETag (synthEnv 100 100 (- 5) 10 0 10)
                (revalidate ''W/blank'') [] (14, 8192, 0))) = None"
proof -
  have f: "fresh (revalidate ''W/blank'') (synthETag (body sendEmptyTile))"
    by (simp add: fresh_def revalidate_def etagMatches_def body_simps)
  show ?thesis
    unfolding tileEndpoint_unfold synth_outside_reply fst_conv
    using f res_send_Content_Type [of sendEmptyTile synthETag "revalidate ''W/blank''"]
    by (simp add: res_send_200 status_simps)
qed

theorem status_200_or_304_witness:
  "replyStatus (fst (tileEndpoint synthETag (synthEnv 100 100 (- 5) 10 0 10)
                       plainGet [] (14, 8192, 0))) = 200
   \<and> replyBody (fst (tileEndpoint synthETag (synthEnv 100 100 (- 5) 10 0 10)
                       plainGet [] (14, 8192, 0)))
       = Some (Blank 256 256 4 (255, 255, 255, 0))
   \<and> replyHeader ''Content-Type''
        (fst (tileEndpoint synthETag (synthEnv 100 100 (- 5) 10 0 10)
                plainGet [] (14, 8192, 0))) = Some ''image/png''
   \<and> replyStatus (fst (tileEndpoint synthETag (synthEnv 100 100 (- 5) 10 0 10)
                       (revalidate ''W/blank'') [] (14, 8192, 0))) = 304"
proof -
  let ?e = "synthEnv 100 100 (- 5) 10 0 10"
  have n: "ifNoneMatch plainGet = None"
    by (simp add: plainGet_def)
  have f: "fresh (revalidate ''W/blank'') (synthETag (body (fst (handleTile ?e [] (14, 8192, 0)))))"
    by (simp add: synth_outside_reply fresh_def revalidate_def etagMatches_def body_simps)
  have b: "body (fst (handleTile ?e [] (14, 8192, 0))) = Blank 256 256 4 (255, 255, 255, 0)"
    by (simp add: synth_outside_reply body_simps tileSize_def)
  show ?thesis
    using status_200_or_304 [of plainGet synthETag ?e "[]" "(14, 8192, 0)"] n
      status_200_or_304 [of "revalidate ''W/blank''" synthETag ?e "[]" "(14, 8192, 0)"] f b
    by simp
qed

lemma res_send_body:
  assumes "statusCode res = 200"
  shows "replyBody (res_send etagFn req res)
         = (if fresh req (etagFn (body res)) then None else Some (body res))"
  by (simp add: res_send_200 [OF assms])

lemma tileEndpoint_X_Cache:
  "replyHeader ''X-Cache'' (fst (tileEndpoint etagFn e req m k))
   = header ''X-Cache'' (fst (handleTile e m k))"
  by (simp add: tileEndpoint_unfold res_send_X_Cache handleTile_status)

lemma tileEndpoint_body:
  "replyBody (fst (tileEndpoint etagFn e req m k))
   = (if fresh req (etagFn (body (fst (handleTile e m k)))) then None
      else Some (body (fst (handleTile e m k))))"
  by (simp add: tileEndpoint_unfold res_send_body handleTile_status)

lemma handleTile_miss_then_hit:
  assumes "handleTile e m k = (res1, m1)"
    and "header ''X-Cache'' res1 = Some ''MISS''"
    and "dataset e2 \<noteq> None"
  shows "handleTile e2 m1 k = (sendCached (body res1), m1)"
proof -
  from handleTile_cases [of e m k] assms(1,2)
  obtain t where t: "res1 = sendTile t" "\<not> mapHas m k"
    "m1 = mapSet k t m \<or> m1 = limitCache (mapSet k t m)"
    by (auto simp: header_simps)
  have g: "mapGet m1 k = Some t"
    using t(2,3) mapGet_mapSet [of k t m] mapGet_limitCache_mapSet [of m k t] by auto
  from assms(3) obtain info2 where "dataset e2 = Some info2"
    by auto
  then have "handleTile e2 m1 k = (sendCached t, m1)"
    using g by (rule handleTile_hit)
  then show ?thesis
    using t(1) by (simp add: body_simps)
qed

text \<open>
  C8, amended: every response of the endpoint carries \<open>X-Cache: HIT\<close> or
  \<open>X-Cache: MISS\<close>, or answers with the empty tile and carries no \<open>X-Cache\<close>
  header. When a request is answered with \<open>X-Cache: MISS\<close> (a freshly rendered tile),
  the next request for the same key, whatever the collaborators do then, leaves the
  cache as it is and is answered with \<open>X-Cache: HIT\<close> and the same image: each of the
  two responses has that image as its body unless Express answers it with 304 and no
  body, so that two requests without \<^verbatim>\<open>If-None-Match\<close> get the same body.
\<close>

theorem miss_then_hit:
  "(replyHeader ''X-Cache'' (fst (tileEndpoint etagFn e req m k)) = Some ''HIT''
    \<or> replyHeader ''X-Cache'' (fst (tileEndpoint etagFn e req m k)) = Some ''MISS''
    \<or> fst (handleTile e m k) = sendEmptyTile
      \<and> replyHeader ''X-Cache'' (fst (tileEndpoint etagFn e req m k)) = None)
   \<and> (tileEndpoint etagFn e req m k = (r1, m1)
      \<and> replyHeader ''X-Cache'' r1 = Some ''MISS''
      \<and> dataset e2 \<noteq> None \<longrightarrow>
        snd (tileEndpoint etagFn2 e2 req2 m1 k) = m1
      \<and> replyHeader ''X-Cache'' (fst (tileEndpoint etagFn2 e2 req2 m1 k)) = Some ''HIT''
      \<and> replyBody r1
          = (if fresh req (etagFn (body (fst (handleTile e m k)))) then None
             else Some (body (fst (handleTile e m k))))
      \<and> replyBody (fst (tileEndpoint etagFn2 e2 req2 m1 k))
          = (if fresh req2 (etagFn2 (body (fst (handleTile e m k)))) then None
             else Some (body (fst (handleTile e m k))))
      \<and> (ifNoneMatch req = None \<and> ifNoneMatch req2 = None \<longrightarrow>
            replyBody r1 = Some (body (fst (handleTile e m k)))
          \<and> replyBody (fst (tileEndpoint etagFn2 e2 req2 m1 k)) = replyBody r1))"
proof -
  have tri: "replyHeader ''X-Cache'' (fst (tileEndpoint etagFn e req m k)) = Some ''HIT''
    \<or> replyHeader ''X-Cache'' (fst (tileEndpoint etagFn e req m k)) = Some ''MISS''
    \<or> fst (handleTile e m k) = sendEmptyTile
      \<and> replyHeader ''X-Cache'' (fst (tileEndpoint etagFn e req m k)) = None"
    unfolding tileEndpoint_X_Cache
    using handleTile_cases [of e m k] by (auto simp: header_simps)
  have second: "snd (tileEndpoint etagFn2 e2 req2 m1 k) = m1
      \<and> replyHeader ''X-Cache'' (fst (tileEndpoint etagFn2 e2 req2 m1 k)) = Some ''HIT''
      \<and> replyBody r1
          = (if fresh req (etagFn (body (fst (handleTile e m k)))) then None
             else Some (body (fst (handleTile e m k))))
      \<and> replyBody (fst (tileEndpoint etagFn2 e2 req2 m1 k))
          = (if fresh req2 (etagFn2 (body (fst (handleTile e m k)))) then None
             else Some (body (fst (handleTile e m k))))
      \<and> (ifNoneMatch req = None \<and> ifNoneMatch req2 = None \<longrightarrow>
            replyBody r1 = Some (body (fst (handleTile e m k)))
          \<and> replyBody (fst (tileEndpoint etagFn2 e2 req2 m1 k)) = replyBody r1)"
    if h: "tileEndpoint etagFn e req m k = (r1, m1)"
      "replyHeader ''X-Cache'' r1 = Some ''MISS''" "dataset e2 \<noteq> None"
  proof -
    let ?res = "fst (handleTile e m k)"
    have r1: "r1 = fst (tileEndpoint etagFn e req m k)" and m1: "m1 = snd (handleTile e m k)"
      using h(1) by (simp_all add: tileEndpoint_unfold)
    have x: "header ''X-Cache'' ?res = Some ''MISS''"
      using h(2) unfolding r1 tileEndpoint_X_Cache .
    have "handleTile e m k = (?res, m1)"
      using m1 by simp
    then have hit: "handleTile e2 m1 k = (sendCached (body ?res), m1)"
      using x h(3) by (rule handleTile_miss_then_hit)
    have b1: "replyBody r1 = (if fresh req (etagFn (body ?res)) then None else Some (body ?res))"
      unfolding r1 by (rule tileEndpoint_body)
    have b2: "replyBody (fst (tileEndpoint etagFn2 e2 req2 m1 k))
              = (if fresh req2 (etagFn2 (body ?res)) then None else Some (body ?res))"
      unfolding tileEndpoint_body hit by (simp add: body_simps)
    have c2: "snd (tileEndpoint etagFn2 e2 req2 m1 k) = m1"
      by (simp add: tileEndpoint_unfold hit)
    have x2: "replyHeader ''X-Cache'' (fst (tileEndpoint etagFn2 e2 req2 m1 k)) = Some ''HIT''"
      unfolding tileEndpoint_X_Cache hit by (simp add: header_simps)
    show ?thesis
      using b1 b2 c2 x2 by (simp add: fresh_unconditional)
  qed
  show ?thesis
    using tri second by blast
qed

lemma synth_clamped_first:
  "handleTile (synthEnv 1010 1010 900 200 400 200) [] (14, 8192, 0)
     = (sendTile (Tile 256 256 [10, 20, 30]), [((14, 8192, 0), Tile 256 256 [10, 20, 30])])"
proof -
  have h: "\<not> mapHas [] (14, 8192, 0)"
    by (simp add: mapHas_def)
  show ?thesis
    using synth_handle_clamped [OF h] by (simp add: limitCache_def mapSize_def)
qed

theorem miss_then_hit_witness:
  "replyHeader ''X-Cache''
     (fst (tileEndpoint synthETag (synthEnv 1010 1010 900 200 400 200) plainGet []
             (14, 8192, 0))) = Some ''MISS''
   \<and> replyHeader ''X-Cache''
       (fst (tileEndpoint synthETag (synthEnv 1010 1010 900 200 400 200) plainGet
               [((14, 8192, 0), Tile 256 256 [10, 20, 30])] (14, 8192, 0))) = Some ''HIT''
   \<and> replyBody
       (fst (tileEndpoint synthETag (synthEnv 1010 1010 900 200 400 200) plainGet
               [((14, 8192, 0), Tile 256 256 [10, 20, 30])] (14, 8192, 0)))
     = Some (Tile 256 256 [10, 20, 30])
   \<and> replyBody
       (fst (tileEndpoint synthETag (synthEnv 1010 1010 900 200 400 200) plainGet []
               (14, 8192, 0)))
     = Some (Tile 256 256 [10, 20, 30])"
proof -
  let ?e = "synthEnv 1010 1010 900 200 400 200"
  let ?t = "Tile 256 256 [10, 20, 30]"
  let ?m1 = "[((14, 8192, 0), ?t)]"
  let ?r1 = "fst (tileEndpoint synthETag ?e plainGet [] (14, 8192, 0))"
  have a: "tileEndpoint synthETag ?e plainGet [] (14, 8192, 0) = (?r1, ?m1)"
    by (simp add: tileEndpoint_unfold synth_clamped_first)
  have b: "replyHeader ''X-Cache'' ?r1 = Some ''MISS''"
    by (simp add: tileEndpoint_X_Cache synth_clamped_first header_simps)
  have c: "dataset ?e \<noteq> None"
    by (simp add: synth_dataset)
  have n: "ifNoneMatch plainGet = None"
    by (simp add: plainGet_def)
  have t: "body (fst (handleTile ?e [] (14, 8192, 0))) = ?t"
    by (simp add: synth_clamped_first body_simps)
  let ?r2 = "fst (tileEndpoint synthETag ?e plainGet ?m1 (14, 8192, 0))"
  from miss_then_hit [of synthETag ?e plainGet "[]" "(14, 8192, 0)" ?r1 ?m1 ?e synthETag
        plainGet] a b c
  have x2: "replyHeader ''X-Cache'' ?r2 = Some ''HIT''"
    and bodies: "ifNoneMatch plainGet = None \<and> ifNoneMatch plainGet = None \<longrightarrow>
            replyBody ?r1 = Some (body (fst (handleTile ?e [] (14, 8192, 0))))
          \<and> replyBody ?r2 = replyBody ?r1"
    by blast+
  from bodies n t have "replyBody ?r1 = Some ?t" "replyBody ?r2 = Some ?t"
    by simp_all
  with b x2 show ?thesis
    by blast
qed

text \<open>
  C8, as stated, fails: for a tile whose window starts left of the raster, the first and
  the second response carry no \<open>X-Cache\<close> header at all.
\<close>

theorem no_header_counterexample:
  "replyHeader ''X-Cache''
     (fst (tileEndpoint synthETag (synthEnv 100 100 (- 5) 10 0 10) plainGet []
             (14, 8192, 0))) = None
   \<and> replyHeader ''X-Cache''
       (fst (tileEndpoint synthETag (synthEnv 100 100 (- 5) 10 0 10) plainGet
               (snd (tileEndpoint synthETag (synthEnv 100 100 (- 5) 10 0 10) plainGet []
                       (14, 8192, 0)))
               (14, 8192, 0))) = None"
proof -
  have h: "\<not> mapHas [] (14, 8192, 0)"
    by (simp add: mapHas_def)
  have s: "snd (tileEndpoint synthETag (synthEnv 100 100 (- 5) 10 0 10) plainGet []
                  (14, 8192, 0)) = []"
    by (simp add: tileEndpoint_unfold synth_handle_outside [OF h])
  show ?thesis
    unfolding s tileEndpoint_X_Cache
    by (simp add: synth_handle_outside [OF h] header_simps)
qed

subsection \<open>The empty tile and the fixed window\<close>

text \<open>
  C10: a request that ends in the empty tile leaves the cache unchanged, and its
  response carries no \<open>X-Cache\<close> header. The same request on the same collaborators
  ends in the empty tile again; and when the dataset was initialised, the key is not in
  the cache afterwards, so that no later request for it, whatever the collaborators do,
  is answered as a cache hit before a tile has been rendered for it.
\<close>

theorem empty_tile_not_cached:
  assumes "handleTile e m k = (res, m')" and "res = sendEmptyTile"
  shows "m' = m
       \<and> header ''X-Cache'' res = None
       \<and> handleTile e m' k = (sendEmptyTile, m')
       \<and> (dataset e \<noteq> None \<longrightarrow>
            \<not> mapHas m' k
          \<and> (\<forall>e2. header ''X-Cache'' (fst (handleTile e2 m' k)) \<noteq> Some ''HIT''))"
proof -
  have m: "m' = m"
    using handleTile_cases [of e m k] assms by (auto simp: sendEmptyTile_distinct)
  have again: "handleTile e m' k = (sendEmptyTile, m')"
    using assms m by simp
  have nothit: "\<not> mapHas m' k
          \<and> (\<forall>e2. header ''X-Cache'' (fst (handleTile e2 m' k)) \<noteq> Some ''HIT'')"
    if "dataset e \<noteq> None"
  proof -
    from that obtain info where i: "dataset e = Some info" by auto
    have n: "\<not> mapHas m k"
    proof
      assume "mapHas m k"
      then obtain t where "mapGet m k = Some t"
        by (auto simp: mapHas_def mapGet_def)
      then have "handleTile e m k = (sendCached t, m)"
        using i handleTile_hit by simp
      with assms show False
        using sendEmptyTile_distinct(1) [of t] by simp
    qed
    have "header ''X-Cache'' (fst (handleTile e2 m k)) \<noteq> Some ''HIT''" for e2
      using handleTile_cases [of e2 m k] n
      by (auto simp: header_simps mapHas_def mapGet_def)
    with n m show ?thesis by simp
  qed
  show ?thesis
    using m again nothit assms(2) by (simp add: header_simps)
qed

theorem empty_tile_not_cached_witness:
  "handleTile (synthEnv 1010 1010 600 2400 400 200) [] (14, 8192, 7) = (sendEmptyTile, [])
   \<and> header ''X-Cache'' sendEmptyTile = None
   \<and> \<not> mapHas [] (14, 8192, 7)"
proof -
  have h: "\<not> mapHas [] (14, 8192, 7)"
    by (simp add: mapHas_def)
  have a: "handleTile (synthEnv 1010 1010 600 2400 400 200) [] (14, 8192, 7)
           = (sendEmptyTile, [])"
    using handleTile_miss [OF synth_dataset h] by (simp add: ex_fixed_none)
  show ?thesis
    using a h empty_tile_not_cached [OF a refl] by simp
qed

text \<open>
  C3, amended: for a request that misses the cache and whose bounding window passes the
  test of line 245 and exceeds half of the raster's width or height: at a zoom below 14
  the response is the empty tile. At a zoom of 14 or more the handler reprojects the
  centre of the tile to the pixel \<open>(cx, cy)\<close> and builds, with
  \<open>s = min(width, height) / 10\<close>, the window \<open>x = max(0, cx - s/2)\<close>,
  \<open>y = max(0, cy - s/2)\<close>, \<open>w = min(width - x, s)\<close>, \<open>h = min(height - y, s)\<close>.
  When the reprojection of the centre fails, or \<open>w \<le> 0\<close> or \<open>h \<le> 0\<close>, the
  response is the empty tile. Otherwise the rounded window goes to the compositor; when
  a band read or the codec fails the response is the empty tile, and when they succeed
  it is an encoded tile of 256 by 256 pixels with \<open>X-Cache: MISS\<close>, stored in the
  cache under the key of the request.
\<close>

theorem fixed_fallback:
  assumes "dataset e = Some info" and "\<not> mapHas m (z, x, y)"
    and "cornerPixels e info z x y = Some (nwPixel, nePixel, swPixel, sePixel)"
    and "w = boundingWindow nwPixel nePixel swPixel sePixel"
    and "\<not> outOfBounds info w" and "oversize info w"
  shows "(z < 14 \<longrightarrow> resolveWindow e info z x y = NoCoverage
                    \<and> handleTile e m (z, x, y) = (sendEmptyTile, m))
       \<and> (14 \<le> z \<longrightarrow>
            (centerPixel e info z x y = None \<longrightarrow>
               handleTile e m (z, x, y) = (sendEmptyTile, m))
          \<and> (\<forall>cx cy. centerPixel e info z x y = Some (cx, cy) \<longrightarrow>
               (let fixedSize = real_of_int (min (width info) (height info)) / 10;
                    fx = max 0 (real_of_int cx - fixedSize / 2);
                    fy = max 0 (real_of_int cy - fixedSize / 2);
                    fw = min (real_of_int (width info) - fx) fixedSize;
                    fh = min (real_of_int (height info) - fy) fixedSize;
                    win = \<lparr> winX = round fx, winY = round fy,
                            winWidth = round fw, winHeight = round fh \<rparr>
                in if fw \<le> 0 \<or> fh \<le> 0
                   then handleTile e m (z, x, y) = (sendEmptyTile, m)
                   else resolveWindow e info z x y = FixedFallback win
                      \<and> (renderTile e win = None \<longrightarrow>
                           handleTile e m (z, x, y) = (sendEmptyTile, m))
                      \<and> (\<forall>img. renderTile e win = Some img \<longrightarrow>
                             handleTile e m (z, x, y)
                               = (sendTile img, mapSet (z, x, y) img m)
                           \<and> header ''X-Cache'' (sendTile img) = Some ''MISS''
                           \<and> imageWidth img = 256 \<and> imageHeight img = 256))))"
proof -
  have r: "resolveWindow e info z x y =
      (if z \<ge> 14 then
         (case centerPixel e info z x y of None \<Rightarrow> NoCoverage
          | Some c \<Rightarrow>
              (case fixedWindow info c of None \<Rightarrow> NoCoverage
               | Some fw \<Rightarrow> FixedFallback fw))
       else NoCoverage)"
    using assms(3-6) by (simp add: resolveWindow_def Let_def)
  have h: "handleTile e m (z, x, y) =
     (case resolveWindow e info z x y of
        NoCoverage \<Rightarrow> (sendEmptyTile, m)
      | FixedFallback w \<Rightarrow>
          (case renderTile e w of None \<Rightarrow> (sendEmptyTile, m)
           | Some tileBuffer \<Rightarrow> (sendTile tileBuffer, mapSet (z, x, y) tileBuffer m))
      | Clamped w \<Rightarrow>
          (case renderTile e w of None \<Rightarrow> (sendEmptyTile, m)
           | Some tileBuffer \<Rightarrow>
               (sendTile tileBuffer, limitCache (mapSet (z, x, y) tileBuffer m))))"
    using assms(1,2) by (rule handleTile_miss)
  have low: "resolveWindow e info z x y = NoCoverage
             \<and> handleTile e m (z, x, y) = (sendEmptyTile, m)" if "z < 14"
    using that r h by simp
  have nocentre: "handleTile e m (z, x, y) = (sendEmptyTile, m)"
    if "14 \<le> z" "centerPixel e info z x y = None"
    using that r h by simp
  have centre: "(let fixedSize = real_of_int (min (width info) (height info)) / 10;
                    fx = max 0 (real_of_int cx - fixedSize / 2);
                    fy = max 0 (real_of_int cy - fixedSize / 2);
                    fw = min (real_of_int (width info) - fx) fixedSize;
                    fh = min (real_of_int (height info) - fy) fixedSize;
                    win = \<lparr> winX = round fx, winY = round fy,
                            winWidth = round fw, winHeight = round fh \<rparr>
                in if fw \<le> 0 \<or> fh \<le> 0
                   then handleTile e m (z, x, y) = (sendEmptyTile, m)
                   else resolveWindow e info z x y = FixedFallback win
                      \<and> (renderTile e win = None \<longrightarrow>
                           handleTile e m (z, x, y) = (sendEmptyTile, m))
                      \<and> (\<forall>img. renderTile e win = Some img \<longrightarrow>
                             handleTile e m (z, x, y)
                               = (sendTile img, mapSet (z, x, y) img m)
                           \<and> header ''X-Cache'' (sendTile img) = Some ''MISS''
                           \<and> imageWidth img = 256 \<and> imageHeight img = 256))"
    if "14 \<le> z" "centerPixel e info z x y = Some (cx, cy)" for cx cy
  proof -
    have r': "resolveWindow e info z x y =
      (case fixedWindow info (cx, cy) of None \<Rightarrow> NoCoverage
       | Some fw \<Rightarrow> FixedFallback fw)"
      using that r by simp
    show ?thesis
      unfolding h r' fixedWindow_unfold
      by (auto simp: Let_def header_simps dest: renderTile_size)
  qed
  show ?thesis
    using low nocentre centre by blast
qed

theorem fixed_fallback_witness:
  "resolveWindow (synthEnv 1010 1010 90 820 400 200) (synthInfo 1010 1010) 14 8192 0
     = FixedFallback \<lparr> winX = 450, winY = 450, winWidth = 101, winHeight = 101 \<rparr>
   \<and> handleTile (synthEnv 1010 1010 90 820 400 200) [] (14, 8192, 0)
     = (sendTile (Tile 256 256 [10, 20, 30]), [((14, 8192, 0), Tile 256 256 [10, 20, 30])])"
proof -
  let ?e = "synthEnv 1010 1010 90 820 400 200"
  let ?i = "synthInfo 1010 1010"
  let ?w = "\<lparr> winX = 90, winY = 400, winWidth = 820, winHeight = 200 \<rparr>"
  let ?f = "\<lparr> winX = 450, winY = 450, winWidth = 101, winHeight = 101 \<rparr>"
  have d: "dataset ?e = Some ?i"
    by (rule synth_dataset)
  have h: "\<not> mapHas [] (14, 8192, 0)"
    by (simp add: mapHas_def)
  have c: "cornerPixels ?e ?i 14 8192 0
           = Some ((90, 400), (90 + 820, 400 + 200), (90, 400), (90 + 820, 400 + 200))"
    by (rule synth_cornerPixels) simp_all
  have w: "?w = boundingWindow (90, 400) (90 + 820, 400 + 200) (90, 400) (90 + 820, 400 + 200)"
    by (simp add: boundingWindow_def Let_def Math_min4_def Math_max4_def)
  have o: "\<not> outOfBounds ?i ?w"
    by (simp add: outOfBounds_def synthInfo_def)
  have s: "oversize ?i ?w"
    by (simp add: oversize_def synthInfo_def)
  have p: "centerPixel ?e ?i 14 8192 0 = Some (500, 500)"
    by (simp add: synth_centerPixel Math_round_def)
  have v: "validWindow ?i ?f"
    by (simp add: validWindow_def synthInfo_def)
  have rt: "renderTile ?e ?f = Some (Tile 256 256 [10, 20, 30])"
    using v by (rule synth_renderTile)
  have z: "(14 :: int) \<le> 14" by simp
  from fixed_fallback [OF d h c w o s]
  have "\<forall>cx cy. centerPixel ?e ?i 14 8192 0 = Some (cx, cy) \<longrightarrow>
               (let fixedSize = real_of_int (min (width ?i) (height ?i)) / 10;
                    fx = max 0 (real_of_int cx - fixedSize / 2);
                    fy = max 0 (real_of_int cy - fixedSize / 2);
                    fw = min (real_of_int (width ?i) - fx) fixedSize;
                    fh = min (real_of_int (height ?i) - fy) fixedSize;
                    win = \<lparr> winX = round fx, winY = round fy,
                            winWidth = round fw, winHeight = round fh \<rparr>
                in if fw \<le> 0 \<or> fh \<le> 0
                   then handleTile ?e [] (14, 8192, 0) = (sendEmptyTile, [])
                   else resolveWindow ?e ?i 14 8192 0 = FixedFallback win
                      \<and> (renderTile ?e win = None \<longrightarrow>
                           handleTile ?e [] (14, 8192, 0) = (sendEmptyTile, []))
                      \<and> (\<forall>img. renderTile ?e win = Some img \<longrightarrow>
                             handleTile ?e [] (14, 8192, 0)
                               = (sendTile img, mapSet (14, 8192, 0) img [])
                           \<and> header ''X-Cache'' (sendTile img) = Some ''MISS''
                           \<and> imageWidth img = 256 \<and> imageHeight img = 256))"
    using z by blast
  with p have "resolveWindow ?e ?i 14 8192 0 = FixedFallback ?f
       \<and> (\<forall>img. renderTile ?e ?f = Some img \<longrightarrow>
              handleTile ?e [] (14, 8192, 0) = (sendTile img, mapSet (14, 8192, 0) img []))"
    by (simp add: Let_def synthInfo_def round_def)
  with rt show ?thesis by simp
qed

text \<open>
  C3, as stated, fails: at the zoom 14, on a raster of 1010 by 1010 pixels, a window of
  2400 by 200 pixels at the column 600 is oversize; the centre of the tile is the column
  1800, the fixed window has a negative width, and the response is the empty tile.
\<close>

theorem fixed_fallback_counterexample:
  "(14 :: int) \<le> 14
   \<and> cornerPixels (synthEnv 1010 1010 600 2400 400 200) (synthInfo 1010 1010) 14 8192 0
       = Some ((600, 400), (3000, 600), (600, 400), (3000, 600))
   \<and> boundingWindow (600, 400) (3000, 600) (600, 400) (3000, 600)
       = \<lparr> winX = 600, winY = 400, winWidth = 2400, winHeight = 200 \<rparr>
   \<and> oversize (synthInfo 1010 1010)
       \<lparr> winX = 600, winY = 400, winWidth = 2400, winHeight = 200 \<rparr>
   \<and> handleTile (synthEnv 1010 1010 600 2400 400 200) [] (14, 8192, 0) = (sendEmptyTile, [])"
proof -
  have h: "\<not> mapHas [] (14, 8192, 0)"
    by (simp add: mapHas_def)
  have a: "handleTile (synthEnv 1010 1010 600 2400 400 200) [] (14, 8192, 0)
           = (sendEmptyTile, [])"
    using handleTile_miss [OF synth_dataset h] by (simp add: ex_fixed_none)
  have c: "cornerPixels (synthEnv 1010 1010 600 2400 400 200) (synthInfo 1010 1010) 14 8192 0
       = Some ((600, 400), (3000, 600), (600, 400), (3000, 600))"
    using synth_cornerPixels [of 600 2400 400 200 1010 1010 0] by simp
  show ?thesis
    using a c
    by (simp add: boundingWindow_def Let_def Math_min4_def Math_max4_def oversize_def
        synthInfo_def)
qed

subsection \<open>The bound of the cache\<close>

lemma handleTile_normal_bound:
  assumes "dataset e = Some info" and "resolveWindow e info z x y = Clamped w"
    and "mapSize m \<le> 1000"
  shows "mapSize (snd (handleTile e m (z, x, y))) \<le> 1000"
proof (cases "mapHas m (z, x, y)")
  case True
  then obtain t where "mapGet m (z, x, y) = Some t"
    by (auto simp: mapHas_def mapGet_def)
  then show ?thesis
    using assms(1,3) handleTile_hit by simp
next
  case False
  have "mapSize (limitCache (mapSet (z, x, y) t m)) \<le> 1000" for t
    using assms(3) mapSize_mapSet_absent [OF False, of t]
    by (intro limitCache_bound) simp
  then show ?thesis
    using assms handleTile_miss [OF assms(1) False]
    by (auto split: option.splits)
qed

lemma synth_lon16:
  "lon (tileToLatLon 32768 y 16) = 0"
  "lon (tileToLatLon 32769 y 16) = 45 / 8192"
  by (simp_all add: tileToLatLon_def Let_def Math_pow2_def)

lemma ex_clamped16:
  "resolveWindow (synthEnv 1010 1010 90 820 400 200) (synthInfo 1010 1010) 16 32768 y
   = Clamped \<lparr> winX = 90, winY = 400, winWidth = 205, winHeight = 50 \<rparr>"
proof -
  have c: "cornerPixels (synthEnv 1010 1010 90 820 400 200) (synthInfo 1010 1010) 16 32768 y
           = Some ((90, 400), (295, 450), (90, 400), (295, 450))"
    by (simp add: cornerPixels_def Let_def synth_lon16 synthEnv_def synthProj_def
        projToPixel_def synthInfo_def Math_round_def toDouble_numeral)
  have w: "boundingWindow (90, 400) (295, 450) (90, 400) (295, 450)
           = \<lparr> winX = 90, winY = 400, winWidth = 205, winHeight = 50 \<rparr>"
    by (simp add: boundingWindow_def Let_def Math_min4_def Math_max4_def)
  show ?thesis
    unfolding resolveWindow_def c
    by (simp add: w outOfBounds_def oversize_def clampWindow_def Let_def synthInfo_def)
qed

lemma synth_handle_normal16:
  assumes "\<not> mapHas m (16, 32768, y)"
  shows "handleTile (synthEnv 1010 1010 90 820 400 200) m (16, 32768, y)
         = (sendTile (Tile 256 256 [10, 20, 30]),
            limitCache (mapSet (16, 32768, y) (Tile 256 256 [10, 20, 30]) m))"
proof -
  have v: "validWindow (synthInfo 1010 1010)
             \<lparr> winX = 90, winY = 400, winWidth = 205, winHeight = 50 \<rparr>"
    by (simp add: validWindow_def synthInfo_def)
  show ?thesis
    using handleTile_miss [OF synth_dataset assms]
    by (simp add: ex_clamped16 synth_renderTile [OF v])
qed

lemma serve_append: "serve e m (ks @ ks') = serve e (serve e m ks) ks'"
  by (induction ks arbitrary: m) simp_all

lemma serve_normal16:
  assumes "distinct ys" and "\<forall>y \<in> set ys. \<not> mapHas m (16, 32768, y)"
    and "mapSize m + length ys \<le> 1000"
  shows "serve (synthEnv 1010 1010 90 820 400 200) m (map (\<lambda>y. (16, 32768, y)) ys)
         = m @ map (\<lambda>y. ((16, 32768, y), Tile 256 256 [10, 20, 30])) ys"
  using assms
proof (induction ys arbitrary: m)
  case Nil
  then show ?case by simp
next
  case (Cons y ys)
  let ?t = "Tile 256 256 [10, 20, 30]"
  let ?m = "m @ [((16, 32768, y), ?t)]"
  have n: "\<not> mapHas m (16, 32768, y)"
    using Cons.prems(2) by simp
  have s: "mapSet (16, 32768, y) ?t m = ?m"
    using n by (rule mapSet_absent)
  have "mapSize ?m \<le> 1000"
    using Cons.prems(3) by (simp add: mapSize_def)
  then have l: "limitCache ?m = ?m"
    by (simp add: limitCache_def)
  have step: "snd (handleTile (synthEnv 1010 1010 90 820 400 200) m (16, 32768, y)) = ?m"
    by (simp add: synth_handle_normal16 [OF n] s l)
  have "\<forall>y' \<in> set ys. \<not> mapHas ?m (16, 32768, y')"
    using Cons.prems(1,2) by (auto simp: mapHas_keys)
  moreover have "mapSize ?m + length ys \<le> 1000"
    using Cons.prems(3) by (simp add: mapSize_def)
  ultimately have "serve (synthEnv 1010 1010 90 820 400 200) ?m
                     (map (\<lambda>y. (16, 32768, y)) ys)
                   = ?m @ map (\<lambda>y. ((16, 32768, y), ?t)) ys"
    using Cons.IH [of ?m] Cons.prems(1) by simp
  then show ?case
    by (simp add: step)
qed

text \<open>
  C2 on the path of the fixed window: line 339 stores the tile and the lines 417 to 421
  are not run. On the synthetic raster the tiles \<open>(16, 32768, y)\<close> take the normal path
  and the tile \<open>(14, 8192, 0)\<close> takes the path of the fixed window. After 1000 tiles of
  the first kind the cache holds 1000 entries; the request for \<open>(14, 8192, 0)\<close> then
  leaves 1001 entries in it, and a further request on the normal path, which deletes
  one entry for the one it stores, leaves 1001 again. (On the normal path alone the
  bound holds, \<open>handleTile_normal_bound\<close>, and the entry deleted is the oldest,
  \<open>limitCache_oldest\<close>.)
\<close>

theorem cache_exceeds_bound:
  "mapSize (serve (synthEnv 1010 1010 90 820 400 200) []
             (map (\<lambda>y. (16, 32768, y)) [0..999])) = 1000
   \<and> mapSize (serve (synthEnv 1010 1010 90 820 400 200) []
             (map (\<lambda>y. (16, 32768, y)) [0..999] @ [(14, 8192, 0)])) = 1001
   \<and> mapSize (serve (synthEnv 1010 1010 90 820 400 200) []
             (map (\<lambda>y. (16, 32768, y)) [0..999] @ [(14, 8192, 0), (16, 32768, 1000)]))
       = 1001"
proof -
  let ?e = "synthEnv 1010 1010 90 820 400 200"
  let ?t = "Tile 256 256 [10, 20, 30]"
  let ?m = "map (\<lambda>y. ((16, 32768, y), ?t)) [0..999]"
  have len: "length [0..999 :: int] = 1000"
    by simp
  have full: "serve ?e [] (map (\<lambda>y. (16, 32768, y)) [0..999]) = ?m"
    using serve_normal16 [of "[0..999]" "[]"] len by (simp add: mapHas_def mapSize_def)
  have size: "mapSize ?m = 1000"
    using len by (simp add: mapSize_def)
  have n: "\<not> mapHas ?m (14, 8192, 0)"
    by (auto simp: mapHas_keys)
  have fb: "snd (handleTile ?e ?m (14, 8192, 0)) = ?m @ [((14, 8192, 0), ?t)]"
    using synth_handle_fallback [OF n] mapSet_absent [OF n] by simp
  let ?m1 = "?m @ [((14, 8192, 0), ?t)]"
  have size1: "mapSize ?m1 = 1001"
    using size by (simp add: mapSize_def)
  have n1: "\<not> mapHas ?m1 (16, 32768, 1000)"
    by (auto simp: mapHas_keys)
  have "mapSize (mapSet (16, 32768, 1000) ?t ?m1) = 1002"
    using mapSize_mapSet_absent [OF n1] size1 by simp
  moreover have "distinct (map fst (mapSet (16, 32768, 1000) ?t ?m1))"
    unfolding mapSet_absent [OF n1]
    by (auto simp: distinct_map inj_on_def comp_def)
  ultimately have "limitCache (mapSet (16, 32768, 1000) ?t ?m1)
                   = tl (mapSet (16, 32768, 1000) ?t ?m1)"
    and "mapSize (tl (mapSet (16, 32768, 1000) ?t ?m1)) = 1001"
    by (simp_all add: limitCache_oldest mapSize_def)
  then have size2: "mapSize (snd (handleTile ?e ?m1 (16, 32768, 1000))) = 1001"
    by (simp add: synth_handle_normal16 [OF n1])
  show ?thesis
    using full size fb size1 size2 by (simp add: serve_append)
qed

end
